theory Spec2Isabelle
  imports Main "HOL-Library.Char_ord" "HOL-Library.List_Lexorder" "HOL-Library.Word"
begin

section \<open>Values that can be interpolated into a SQL template (src/src/core.ts)\<close>

text \<open>
  The three symbols core.ts exports (\<^verbatim>\<open>Default\<close>, \<^verbatim>\<open>self\<close>, \<^verbatim>\<open>all\<close>), told apart by
  identity, and any other symbol, with its description.
\<close>

datatype jssymbol = Default | self | all | OtherSymbol string

text \<open>
  The JavaScript values \<^verbatim>\<open>compileExpression\<close> can meet at run time. Strings are lists of
  8-bit characters. A number is \<open>JNumber n\<close> when it is an integer from \<open>-(2^53)\<close> up to
  \<open>2^53 - 1\<close>, the signed value \<open>sint n\<close> of the 54-bit word \<open>n\<close> (so that every term is such
  a number: these are the integers that JavaScript prints with all their digits); any other
  number, a fraction, a larger integer, \<^verbatim>\<open>NaN\<close> or an infinity, is \<open>JOtherNumber s\<close>, given
  by the string \<open>s\<close> that it prints as. A bigint is \<open>JBigInt\<close> of its value, and a function is
  \<open>JFunction\<close> of its source text, which is what it prints as. The wrapper classes carry the
  payload their constructors declare: \<^verbatim>\<open>Parameter(value: any)\<close>,
  \<^verbatim>\<open>DangerousRawString(value: string)\<close>, \<^verbatim>\<open>ParentColumn(value: Column)\<close>,
  \<^verbatim>\<open>ColumnNames<Updatable | (keyof Updatable)[]>\<close> (an array of names, \<open>Inl\<close>, or an
  object, \<open>Inr\<close>) and \<^verbatim>\<open>ColumnValues<Updatable>\<close>. An object is the list of its own
  enumerable properties in insertion order; a lookup takes the first binding of a key.
  \<open>JObject\<close> is a plain object (a \<^verbatim>\<open>Whereable\<close>), \<open>JInstance c\<close> an object of any other
  class \<open>c\<close> that core.ts knows nothing about (a \<^verbatim>\<open>Date\<close>, a \<^verbatim>\<open>Map\<close>, ...).

  \<^verbatim>\<open>SQLFragment\<close> has the fields of the class: \<^verbatim>\<open>literals\<close>, \<^verbatim>\<open>expressions\<close>, the
  optional \<^verbatim>\<open>parentTable\<close> and \<^verbatim>\<open>runResultTransform\<close>, a function from the driver's
  query result \<open>'q\<close> to the run result \<open>'r\<close>.
\<close>

type_synonym safe_integer = "54 word"

datatype ('q, 'r) jsval =
    JUndefined
  | JNull
  | JBoolean bool
  | JNumber safe_integer
  | JOtherNumber string
  | JBigInt int
  | JFunction string
  | JString string
  | JSymbol jssymbol
  | JArray "('q, 'r) jsval list"
  | JObject "(string \<times> ('q, 'r) jsval) list"
  | JInstance string "(string \<times> ('q, 'r) jsval) list"
  | Parameter "('q, 'r) jsval"
  | DangerousRawString string
  | instanceof_ParentColumn: ParentColumn string
  | ColumnNames "string list + (string \<times> ('q, 'r) jsval) list"
  | ColumnValues "(string \<times> ('q, 'r) jsval) list"
  | instanceof_SQLFragment: Fragment "('q, 'r) SQLFragment"
and ('q, 'r) SQLFragment =
    SQLFragment (literals: "string list") (expressions: "('q, 'r) jsval list")
      (parentTable: "string option") (runResultTransform: "'q \<Rightarrow> 'r")

text \<open>\<^verbatim>\<open>interface SQLResultType { text: string; values: any[] }\<close>, the accumulator.\<close>

record ('q, 'r) SQLResultType =
  "text" :: string
  "values" :: "('q, 'r) jsval list"

text \<open>
  What is thrown: \<^verbatim>\<open>new Error(message)\<close> by core.ts itself, a \<^verbatim>\<open>TypeError\<close> by the
  JavaScript runtime.
\<close>

datatype error = Error string | TypeError string

section \<open>The JavaScript primitives the compiler uses\<close>

text \<open>\<^verbatim>\<open>typeof\<close>; \<^verbatim>\<open>typeof null\<close> is \<^verbatim>\<open>'object'\<close>.\<close>

fun typeof :: "('q, 'r) jsval \<Rightarrow> string" where
  "typeof JUndefined = ''undefined''"
| "typeof (JBoolean b) = ''boolean''"
| "typeof (JNumber n) = ''number''"
| "typeof (JOtherNumber s) = ''number''"
| "typeof (JBigInt n) = ''bigint''"
| "typeof (JFunction s) = ''function''"
| "typeof (JString s) = ''string''"
| "typeof (JSymbol s) = ''symbol''"
| "typeof v = ''object''"

text \<open>Truthiness of an optional string: \<^verbatim>\<open>undefined\<close> and the empty string are falsy.\<close>

definition truthy :: "string option \<Rightarrow> bool" where
  "truthy s = (case s of None \<Rightarrow> False | Some v \<Rightarrow> v \<noteq> [])"

text \<open>An optional string interpolated into a template literal.\<close>

definition template :: "string option \<Rightarrow> string" where
  "template s = (case s of None \<Rightarrow> ''undefined'' | Some v \<Rightarrow> v)"

text \<open>\<^verbatim>\<open>String(n)\<close> for a natural number \<open>n\<close>: its decimal digits.\<close>

fun String_nat :: "nat \<Rightarrow> string" where
  "String_nat n =
     (if n < 10 then [''0123456789'' ! n]
      else String_nat (n div 10) @ [''0123456789'' ! (n mod 10)])"

declare String_nat.simps [simp del]

text \<open>
  The decimal digits of an integer, with its sign: what a bigint prints as in a template
  literal, and a number that is an integer from \<open>-(2^53)\<close> up to \<open>2^53 - 1\<close>.
\<close>

definition String_int :: "int \<Rightarrow> string" where
  "String_int n = (if n < 0 then CHR ''-'' # String_nat (nat (- n)) else String_nat (nat n))"

text \<open>The template \<^verbatim>\<open>`"${k}"`\<close>.\<close>

definition quoted :: "string \<Rightarrow> string" where
  "quoted k = CHR 0x22 # k @ [CHR 0x22]"

text \<open>\<^verbatim>\<open>Array.prototype.join\<close> on an array of strings.\<close>

fun join :: "string \<Rightarrow> string list \<Rightarrow> string" where
  "join sep [] = []"
| "join sep [x] = x"
| "join sep (x # y # ys) = x @ sep @ join sep (y # ys)"

text \<open>
  \<^verbatim>\<open>Object.keys\<close>: each own key once. Every call in core.ts is followed by
  \<^verbatim>\<open>.sort()\<close>, which on strings is \<open>sort\<close> in the lexicographic order of the character
  codes, so the order \<^verbatim>\<open>Object.keys\<close> itself lists them in plays no role.
\<close>

definition Object_keys :: "(string \<times> 'a) list \<Rightarrow> string list" where
  "Object_keys obj = remdups (map fst obj)"

text \<open>The property read \<^verbatim>\<open>obj[k]\<close>: \<^verbatim>\<open>undefined\<close> for a key the object does not have.\<close>

definition get :: "(string \<times> ('q, 'r) jsval) list \<Rightarrow> string \<Rightarrow> ('q, 'r) jsval" where
  "get obj k = (case map_of obj k of None \<Rightarrow> JUndefined | Some v \<Rightarrow> v)"

text \<open>\<^verbatim>\<open>result.text += s\<close>.\<close>

definition add_text :: "('q, 'r) SQLResultType \<Rightarrow> string \<Rightarrow> ('q, 'r) SQLResultType" where
  "add_text result s = result\<lparr>text := text result @ s\<rparr>"

text \<open>\<^verbatim>\<open>if (this.parentTable) parentTable = this.parentTable;\<close>\<close>

definition own_table :: "('q, 'r) SQLFragment \<Rightarrow> string option \<Rightarrow> string option" where
  "own_table this pt = (if truthy (parentTable this) then parentTable this else pt)"

text \<open>The message of the final \<^verbatim>\<open>else\<close> branch of \<^verbatim>\<open>compileExpression\<close>.\<close>

definition alien :: "string \<Rightarrow> error" where
  "alien description = Error (''Alien object while interpolating SQL: '' @ description)"

section \<open>\<^verbatim>\<open>SQLFragment.compile\<close> and \<^verbatim>\<open>SQLFragment.compileExpression\<close>\<close>

text \<open>
  The measure of the termination proof: a \<^verbatim>\<open>Parameter\<close> is compiled without a further call.
\<close>

definition weight :: "('q, 'r) jsval \<Rightarrow> nat" where
  "weight e = (case e of Parameter _ \<Rightarrow> 0 | _ \<Rightarrow> 2 * size e + 2)"

lemma size_get:
  "map_of obj k = Some x \<Longrightarrow> size x + 2 \<le> size_list (size_prod (\<lambda>_. 0) size) obj"
  by (induction obj) (auto split: if_splits)

lemma weight_get: "weight (get obj k) < 2 * size_list (size_prod (\<lambda>_. 0) size) obj + 3"
  using size_get[of obj k]
  by (cases "map_of obj k") (auto simp: get_def weight_def split: jsval.splits)

lemma weight_le: "weight e \<le> 2 * size e + 2"
  by (simp add: weight_def split: jsval.splits)

lemma weight_simps:
  "weight (Fragment f) = 2 * size f + 4"
  "weight (JArray xs) = 2 * size_list size xs + 4"
  "weight (ColumnValues obj) = 2 * size_list (size_prod (\<lambda>_. 0) size) obj + 4"
  "weight (JObject obj) = 2 * size_list (size_prod (\<lambda>_. 0) size) obj + 4"
  "weight (JInstance c obj) = 2 * size_list (size_prod (\<lambda>_. 0) size) obj + 4"
  "weight (Parameter x) = 0"
  "weight JUndefined = 2"
  by (simp_all add: weight_def)

lemma size_SQLFragment_eq: "size this = size_list size (expressions this) + 1"
  by (cases this) simp

lemma size_get_less:
  "instanceof_SQLFragment (get obj k) \<Longrightarrow>
     size (get obj k) < Suc (size_list (size_prod (\<lambda>_. 0) size) obj)"
  using size_get[of obj k] by (cases "map_of obj k") (auto simp: get_def)

lemma size_in_set: "x \<in> set xs \<Longrightarrow> size x < Suc (size_list size xs)"
  by (induction xs) auto

text \<open>
  The accumulator \<^verbatim>\<open>result\<close> is passed and returned; a \<^verbatim>\<open>throw\<close> is \<open>Inl\<close>. \<open>pt\<close> is the
  parameter \<^verbatim>\<open>parentTable\<close> and \<open>cc\<close> the parameter \<^verbatim>\<open>currentColumn\<close>, \<open>None\<close> when
  \<^verbatim>\<open>undefined\<close>. The four loops are \<open>compile_for\<close> (the literals after the first, each
  behind its expression; an expression the array does not have reads as \<^verbatim>\<open>undefined\<close>),
  \<open>array_for\<close> (the elements of an array), \<open>values_for\<close> (the sorted keys of a
  \<^verbatim>\<open>ColumnValues\<close>, \<open>i\<close> the loop index) and \<open>where_for\<close> (the sorted keys of a
  \<^verbatim>\<open>Whereable\<close>). The branches of \<open>compileExpression\<close> stand in the order of the source's
  \<^verbatim>\<open>if\<close> chain; \<^verbatim>\<open>null\<close> reaches the \<^verbatim>\<open>typeof expression === 'object'\<close> branch, where
  \<^verbatim>\<open>Object.keys(null)\<close> throws, and the last four equations are the final \<^verbatim>\<open>else\<close>,
  whose template literal throws on a symbol.
\<close>

function
  compile :: "('q, 'r) SQLFragment \<Rightarrow> ('q, 'r) SQLResultType \<Rightarrow> string option \<Rightarrow> string option
      \<Rightarrow> error + ('q, 'r) SQLResultType"
and compileExpression :: "('q, 'r) SQLFragment \<Rightarrow> ('q, 'r) jsval \<Rightarrow> ('q, 'r) SQLResultType
      \<Rightarrow> string option \<Rightarrow> string option \<Rightarrow> error + ('q, 'r) SQLResultType"
and compile_for :: "('q, 'r) SQLFragment \<Rightarrow> string list \<Rightarrow> ('q, 'r) jsval list
      \<Rightarrow> ('q, 'r) SQLResultType \<Rightarrow> string option \<Rightarrow> string option
      \<Rightarrow> error + ('q, 'r) SQLResultType"
and array_for :: "('q, 'r) SQLFragment \<Rightarrow> ('q, 'r) jsval list
      \<Rightarrow> ('q, 'r) SQLResultType \<Rightarrow> string option \<Rightarrow> string option
      \<Rightarrow> error + ('q, 'r) SQLResultType"
and values_for :: "('q, 'r) SQLFragment \<Rightarrow> (string \<times> ('q, 'r) jsval) list \<Rightarrow> nat \<Rightarrow> string list
      \<Rightarrow> ('q, 'r) SQLResultType \<Rightarrow> string option \<Rightarrow> error + ('q, 'r) SQLResultType"
and where_for :: "('q, 'r) SQLFragment \<Rightarrow> (string \<times> ('q, 'r) jsval) list \<Rightarrow> nat \<Rightarrow> string list
      \<Rightarrow> ('q, 'r) SQLResultType \<Rightarrow> string option \<Rightarrow> error + ('q, 'r) SQLResultType"
where
  "compile this result pt cc =
     compile_for this (tl (literals this)) (expressions this)
       (add_text result (case literals this of [] \<Rightarrow> ''undefined'' | l # _ \<Rightarrow> l))
       (own_table this pt) cc"
| "compile_for this [] es result pt cc = Inr result"
| "compile_for this (l # ls) es result pt cc =
     (case compileExpression this (case es of [] \<Rightarrow> JUndefined | e # _ \<Rightarrow> e) result pt cc of
        Inl err \<Rightarrow> Inl err
      | Inr result' \<Rightarrow> compile_for this ls (tl es) (add_text result' l) pt cc)"
| "compileExpression this (Fragment expression) result pt cc =
     compile expression result (own_table this pt) cc"
| "compileExpression this (JString expression) result pt cc =
     Inr (add_text result
       (if take 1 expression = [CHR 0x22] then expression else quoted expression))"
| "compileExpression this (DangerousRawString v) result pt cc = Inr (add_text result v)"
| "compileExpression this (JArray expression) result pt cc =
     array_for this expression result (own_table this pt) cc"
| "array_for this [] result pt cc = Inr result"
| "array_for this (e # es) result pt cc =
     (case compileExpression this e result pt cc of
        Inl err \<Rightarrow> Inl err
      | Inr result' \<Rightarrow> array_for this es result' pt cc)"
| "compileExpression this (Parameter v) result pt cc =
     (let result' = result\<lparr>values := values result @ [v]\<rparr>
      in Inr (add_text result' (CHR ''$'' # String_nat (length (values result')))))"
| "compileExpression this (JSymbol s) result pt cc =
     (if s = Default then Inr (add_text result ''DEFAULT'')
      else if s = self then
        (if \<not> truthy cc then Inl (Error ''The 'self' column alias has no meaning here'')
         else Inr (add_text result (quoted (template cc))))
      else Inl (TypeError ''Cannot convert a Symbol value to a string''))"
| "compileExpression this (ParentColumn v) result pt cc =
     (if \<not> truthy (own_table this pt)
      then Inl (Error ''The 'parent' table alias has no meaning here'')
      else Inr (add_text result (quoted (template (own_table this pt)) @ ''.'' @ quoted v)))"
| "compileExpression this (ColumnNames v) result pt cc =
     (let columnNames = (case v of Inl names \<Rightarrow> names | Inr obj \<Rightarrow> sort (Object_keys obj))
      in Inr (add_text result (join '', '' (map quoted columnNames))))"
| "compileExpression this (ColumnValues v) result pt cc =
     values_for this v 0 (sort (Object_keys v)) result (own_table this pt)"
| "values_for this v i [] result pt = Inr result"
| "values_for this v i (columnName # rest) result pt =
     (let columnValue = get v columnName;
          result' = (if 0 < i then add_text result '', '' else result)
      in case (if instanceof_SQLFragment columnValue \<or> columnValue = JSymbol Default
               then compileExpression this columnValue result' pt (Some columnName)
               else compileExpression this (Parameter columnValue) result' pt (Some columnName)) of
           Inl err \<Rightarrow> Inl err
         | Inr result'' \<Rightarrow> values_for this v (Suc i) rest result'' pt)"
| "compileExpression this (JObject v) result pt cc =
     (let columnNames = sort (Object_keys v)
      in if columnNames \<noteq> [] then
           (case where_for this v 0 columnNames (add_text result ''('') (own_table this pt) of
              Inl err \<Rightarrow> Inl err
            | Inr result' \<Rightarrow> Inr (add_text result' '')''))
         else Inr (add_text result ''TRUE''))"
| "compileExpression this (JInstance c v) result pt cc =
     (let columnNames = sort (Object_keys v)
      in if columnNames \<noteq> [] then
           (case where_for this v 0 columnNames (add_text result ''('') (own_table this pt) of
              Inl err \<Rightarrow> Inl err
            | Inr result' \<Rightarrow> Inr (add_text result' '')''))
         else Inr (add_text result ''TRUE''))"
| "where_for this v i [] result pt = Inr result"
| "where_for this v i (columnName # rest) result pt =
     (let columnValue = get v columnName;
          result' = (if 0 < i then add_text result '' AND '' else result)
      in case (if instanceof_SQLFragment columnValue then
                 (case compileExpression this columnValue (add_text result' ''('') pt
                         (Some columnName) of
                    Inl err \<Rightarrow> Inl err
                  | Inr r \<Rightarrow> Inr (add_text r '')''))
               else
                 compileExpression this
                   (if instanceof_ParentColumn columnValue then columnValue
                    else Parameter columnValue)
                   (add_text result' (quoted columnName @ '' = '')) pt (Some columnName)) of
           Inl err \<Rightarrow> Inl err
         | Inr result'' \<Rightarrow> where_for this v (Suc i) rest result'' pt)"
| "compileExpression this JNull result pt cc =
     Inl (TypeError ''Cannot convert undefined or null to object'')"
| "compileExpression this JUndefined result pt cc = Inl (alien ''undefined'')"
| "compileExpression this (JBoolean b) result pt cc =
     Inl (alien (if b then ''true'' else ''false''))"
| "compileExpression this (JNumber n) result pt cc = Inl (alien (String_int (sint n)))"
| "compileExpression this (JOtherNumber s) result pt cc = Inl (alien s)"
| "compileExpression this (JBigInt n) result pt cc = Inl (alien (String_int n))"
| "compileExpression this (JFunction s) result pt cc = Inl (alien s)"
  by pat_completeness auto

termination
proof (relation "inv_image (less_than <*lex*> less_than)
    (case_sum
      (case_sum (\<lambda>(this, r, pt, cc). (2 * size this + 3, 0))
        (case_sum (\<lambda>(this, e, r, pt, cc). (weight e, 0))
          (\<lambda>(this, ls, es, r, pt, cc). (2 * size_list size es + 3, length ls))))
      (case_sum (\<lambda>(this, es, r, pt, cc). (2 * size_list size es + 3, 0))
        (case_sum
          (\<lambda>(this, v, i, ks, r, pt).
             (2 * size_list (size_prod (\<lambda>_. 0) size) v + 3, length ks))
          (\<lambda>(this, v, i, ks, r, pt).
             (2 * size_list (size_prod (\<lambda>_. 0) size) v + 3, length ks)))))",
    goal_cases)
  case 1
  show ?case by (intro wf_inv_image wf_lex_prod wf_less_than)
next
  case (2 this result pt cc)
  show ?case by (simp add: size_SQLFragment_eq)
next
  case (3 this l ls es result pt cc)
  show ?case using weight_le[of "hd es"] by (cases es) (simp_all add: weight_simps)
next
  case (4 this l ls es)
  show ?case by (cases es) simp_all
next
  case 5
  show ?case by (simp add: weight_simps)
next
  case 6
  show ?case by (simp add: weight_simps)
next
  case (7 this e es)
  show ?case using weight_le[of e] by simp
next
  case 8
  show ?case by simp
next
  case 9
  show ?case by (simp add: weight_simps)
next
  case (10 this v i columnName)
  then show ?case using weight_get[of v columnName] by simp
next
  case 11
  show ?case by (simp add: weight_simps)
next
  case 12
  show ?case by simp
next
  case 13
  show ?case by (simp add: weight_simps)
next
  case 14
  show ?case by (simp add: weight_simps)
next
  case (15 this v i columnName)
  then show ?case using weight_get[of v columnName] by simp
next
  case (16 this v i columnName)
  then show ?case using weight_get[of v columnName] by (simp add: weight_simps)
next
  case 17
  show ?case by simp
qed

section \<open>\<^verbatim>\<open>SQLFragment.run\<close>\<close>

text \<open>
  What \<^verbatim>\<open>run\<close> does to the outside: the queries it logs to the console and the queries
  it hands to \<^verbatim>\<open>queryable.query\<close>, in order.
\<close>

record ('q, 'r) effects =
  logged :: "('q, 'r) SQLResultType list"
  submitted :: "('q, 'r) SQLResultType list"

text \<open>
  \<^verbatim>\<open>run\<close> compiles with no argument, so from a fresh accumulator and with neither context
  value. \<open>verbose\<close> is \<^verbatim>\<open>getConfig().verbose\<close> (src/config.ts is not among the sources) and
  \<open>query\<close> is what \<^verbatim>\<open>queryable.query\<close> answers: a rejection or a query result. The
  rejected promise of the \<^verbatim>\<open>async\<close> function is \<open>Inl\<close>.
\<close>

definition run :: "('q, 'r) SQLFragment \<Rightarrow> bool \<Rightarrow> (('q, 'r) SQLResultType \<Rightarrow> error + 'q)
    \<Rightarrow> ('q, 'r) effects \<Rightarrow> (error + 'r) \<times> ('q, 'r) effects" where
  "run this verbose query w =
     (case compile this \<lparr>text = '''', values = []\<rparr> None None of
        Inl err \<Rightarrow> (Inl err, w)
      | Inr q \<Rightarrow>
          (let w1 = (if verbose then w\<lparr>logged := logged w @ [q]\<rparr> else w);
               w2 = w1\<lparr>submitted := submitted w1 @ [q]\<rparr>
           in case query q of
                Inl err \<Rightarrow> (Inl err, w2)
              | Inr qr \<Rightarrow> (Inr (runResultTransform this qr), w2)))"

section \<open>What the specification says of the compiled query\<close>

text \<open>
  The definitions of this section follow the words of the specification, not the source;
  the theorems below compare them with \<open>compile\<close> and \<open>compileExpression\<close>.
\<close>

subsection \<open>The recognized expression kinds\<close>

text \<open>
  The kinds the specification lists: nested fragment, string identifier, raw string, array,
  \<^verbatim>\<open>Parameter\<close>, the default marker, the self marker, parent column reference,
  \<^verbatim>\<open>ColumnNames\<close>, \<^verbatim>\<open>ColumnValues\<close> and plain mapping object.
\<close>

fun recognized :: "('q, 'r) jsval \<Rightarrow> bool" where
  "recognized (Fragment f) = True"
| "recognized (JString s) = True"
| "recognized (DangerousRawString s) = True"
| "recognized (JArray xs) = True"
| "recognized (Parameter v) = True"
| "recognized (JSymbol s) = (s = Default \<or> s = self)"
| "recognized (ParentColumn c) = True"
| "recognized (ColumnNames v) = True"
| "recognized (ColumnValues v) = True"
| "recognized (JObject v) = True"
| "recognized v = False"

subsection \<open>Mappings and column value lists\<close>

text \<open>
  Items written one after the other with a separator between them. An item is a step on the
  accumulator that may fail.
\<close>

fun separated :: "string \<Rightarrow> (('q, 'r) SQLResultType \<Rightarrow> error + ('q, 'r) SQLResultType) list
    \<Rightarrow> ('q, 'r) SQLResultType \<Rightarrow> error + ('q, 'r) SQLResultType" where
  "separated sep [] r = Inr r"
| "separated sep [c] r = c r"
| "separated sep (c # cs) r =
     (case c r of Inl err \<Rightarrow> Inl err | Inr r' \<Rightarrow> separated sep cs (add_text r' sep))"

text \<open>
  A value compiled as a parameter: it is appended to the values list, and the placeholder of
  its position, counted from 1, to the text.
\<close>

definition bind_parameter :: "('q, 'r) jsval \<Rightarrow> ('q, 'r) SQLResultType \<Rightarrow> ('q, 'r) SQLResultType" where
  "bind_parameter v r =
     \<lparr>text = text r @ ''$'' @ String_nat (Suc (length (values r))), values = values r @ [v]\<rparr>"

text \<open>
  One conjunct of a mapping: the parenthesized compiled fragment for a nested fragment,
  \<^verbatim>\<open>"key" = "parentTable"."col"\<close> for a parent column reference, \<^verbatim>\<open>"key" = $n\<close> with
  the value bound for anything else.
\<close>

definition conjunct :: "('q, 'r) SQLFragment \<Rightarrow> string option \<Rightarrow> string \<Rightarrow> ('q, 'r) jsval
    \<Rightarrow> ('q, 'r) SQLResultType \<Rightarrow> error + ('q, 'r) SQLResultType" where
  "conjunct this pt key v r =
     (case v of
        Fragment f \<Rightarrow>
          (case compile f (add_text r ''('') (own_table this pt) (Some key) of
             Inl err \<Rightarrow> Inl err
           | Inr r' \<Rightarrow> Inr (add_text r' '')''))
      | ParentColumn col \<Rightarrow>
          (if truthy (own_table this pt)
           then Inr (add_text r (quoted key @ '' = '' @ quoted (template (own_table this pt))
                  @ ''.'' @ quoted col))
           else Inl (Error ''The 'parent' table alias has no meaning here''))
      | _ \<Rightarrow> Inr (bind_parameter v (add_text r (quoted key @ '' = ''))))"

text \<open>
  A mapping: \<^verbatim>\<open>TRUE\<close> when it is empty, else the conjuncts of its keys in sorted order,
  separated by \<^verbatim>\<open>AND\<close>, in parentheses.
\<close>

definition Mapping_spec :: "('q, 'r) SQLFragment \<Rightarrow> (string \<times> ('q, 'r) jsval) list
    \<Rightarrow> ('q, 'r) SQLResultType \<Rightarrow> string option \<Rightarrow> error + ('q, 'r) SQLResultType" where
  "Mapping_spec this obj r pt =
     (if obj = [] then Inr (add_text r ''TRUE'')
      else case separated '' AND ''
                  (map (\<lambda>key. conjunct this pt key (get obj key)) (sort (Object_keys obj)))
                  (add_text r ''('') of
             Inl err \<Rightarrow> Inl err
           | Inr r' \<Rightarrow> Inr (add_text r' '')''))"



text \<open>
  The loops of the source write the separator before every element but the first; this is a
  loop that writes it before every element.
\<close>

fun each_after :: "string \<Rightarrow> (('q, 'r) SQLResultType \<Rightarrow> error + ('q, 'r) SQLResultType) list
    \<Rightarrow> ('q, 'r) SQLResultType \<Rightarrow> error + ('q, 'r) SQLResultType" where
  "each_after sep [] r = Inr r"
| "each_after sep (c # cs) r =
     (case c (add_text r sep) of Inl err \<Rightarrow> Inl err | Inr r' \<Rightarrow> each_after sep cs r')"

subsection \<open>Placeholders and the values they bind\<close>

text \<open>
  A placeholder in a text is a dollar sign followed by decimal digits, as many as follow;
  \<open>placeholders\<close> lists the numbers of the placeholders of a text in the order they stand in.
\<close>

definition is_digit :: "char \<Rightarrow> bool" where
  "is_digit c = (c \<in> set ''0123456789'')"

definition Number_digits :: "string \<Rightarrow> nat" where
  "Number_digits ds = foldl (\<lambda>n c. 10 * n + (of_char c - 48)) 0 ds"

function placeholders :: "string \<Rightarrow> nat list" where
  "placeholders [] = []"
| "placeholders (c # cs) =
     (if c = CHR ''$'' \<and> takeWhile is_digit cs \<noteq> []
      then Number_digits (takeWhile is_digit cs) # placeholders (dropWhile is_digit cs)
      else placeholders cs)"
  by pat_completeness auto

termination placeholders
  by (relation "measure length") (simp_all add: length_dropWhile_le less_Suc_eq_le)

text \<open>
  The values a compilation binds, in the order it binds them: the value of every
  \<^verbatim>\<open>Parameter\<close>, and of every key of a column value list or of a mapping whose value is
  compiled as a parameter, through the expressions a nested fragment compiles (as many as it
  has literals after the first), arrays, column value lists and mappings. Markers, parent
  column references, raw text, identifiers and column names bind nothing.
\<close>

function (sequential) params :: "('q, 'r) jsval \<Rightarrow> ('q, 'r) jsval list" where
  "params (Parameter v) = [v]"
| "params (Fragment f) =
     concat (map params (take (length (literals f) - 1) (expressions f)))"
| "params (JArray xs) = concat (map params xs)"
| "params (ColumnValues obj) =
     concat (map (\<lambda>k. if instanceof_SQLFragment (get obj k) then params (get obj k)
                        else if get obj k = JSymbol Default then [] else [get obj k])
       (sort (Object_keys obj)))"
| "params (JObject obj) =
     concat (map (\<lambda>k. if instanceof_SQLFragment (get obj k) then params (get obj k)
                        else if instanceof_ParentColumn (get obj k) then [] else [get obj k])
       (sort (Object_keys obj)))"
| "params (JInstance c obj) =
     concat (map (\<lambda>k. if instanceof_SQLFragment (get obj k) then params (get obj k)
                        else if instanceof_ParentColumn (get obj k) then [] else [get obj k])
       (sort (Object_keys obj)))"
| "params v = []"
  by pat_completeness auto

termination params
proof (relation "measure size", goal_cases)
  case 1
  show ?case by simp
next
  case (2 f x)
  then have "x \<in> set (expressions f)" by (auto dest: in_set_takeD)
  then show ?case using size_in_set[of x "expressions f"] by (cases f) simp
next
  case (3 xs x)
  then show ?case using size_in_set[of x xs] by simp
next
  case (4 obj k)
  then show ?case using size_get_less[of obj k] by simp
next
  case (5 obj k)
  then show ?case using size_get_less[of obj k] by simp
next
  case (6 c obj k)
  then show ?case using size_get_less[of obj k] by simp
qed

definition value_params :: "(string \<times> ('q, 'r) jsval) list \<Rightarrow> string \<Rightarrow> ('q, 'r) jsval list" where
  "value_params obj k =
     (if instanceof_SQLFragment (get obj k) then params (get obj k)
      else if get obj k = JSymbol Default then [] else [get obj k])"

definition where_params :: "(string \<times> ('q, 'r) jsval) list \<Rightarrow> string \<Rightarrow> ('q, 'r) jsval list" where
  "where_params obj k =
     (if instanceof_SQLFragment (get obj k) then params (get obj k)
      else if instanceof_ParentColumn (get obj k) then [] else [get obj k])"

text \<open>
  Text that the compiler copies and that cannot be taken for a placeholder of its own: a
  \<open>plain\<close> string holds no placeholder, and a string with \<open>no_leading_digit\<close> cannot
  lengthen the number of a placeholder it follows.
\<close>

definition plain :: "string \<Rightarrow> bool" where
  "plain s = (placeholders s = [])"

definition plain_opt :: "string option \<Rightarrow> bool" where
  "plain_opt s = (case s of None \<Rightarrow> True | Some v \<Rightarrow> plain v)"

definition no_leading_digit :: "string \<Rightarrow> bool" where
  "no_leading_digit s = (case s of [] \<Rightarrow> True | c # _ \<Rightarrow> \<not> is_digit c)"

text \<open>
  An expression all of whose copied text is such: every literal and raw string is plain and
  has no leading digit, and every identifier, column name, key and table name that is
  written to the text is plain. Values that are bound as parameters are not text and are
  not looked at.
\<close>

function (sequential) placeholder_free :: "('q, 'r) jsval \<Rightarrow> bool" where
  "placeholder_free (Fragment f) =
     ((\<forall>l \<in> set (literals f). plain l \<and> no_leading_digit l) \<and> plain_opt (parentTable f)
      \<and> (\<forall>e \<in> set (expressions f). placeholder_free e))"
| "placeholder_free (JString s) = plain s"
| "placeholder_free (DangerousRawString s) = (plain s \<and> no_leading_digit s)"
| "placeholder_free (JArray xs) = (\<forall>x \<in> set xs. placeholder_free x)"
| "placeholder_free (ParentColumn c) = plain c"
| "placeholder_free (ColumnNames v) =
     (\<forall>k \<in> set (case v of Inl names \<Rightarrow> names | Inr obj \<Rightarrow> Object_keys obj). plain k)"
| "placeholder_free (ColumnValues obj) =
     (\<forall>k \<in> set (Object_keys obj). plain k
        \<and> (instanceof_SQLFragment (get obj k) \<longrightarrow> placeholder_free (get obj k)))"
| "placeholder_free (JObject obj) =
     (\<forall>k \<in> set (Object_keys obj). plain k
        \<and> (instanceof_SQLFragment (get obj k) \<or> instanceof_ParentColumn (get obj k)
              \<longrightarrow> placeholder_free (get obj k)))"
| "placeholder_free (JInstance c obj) =
     (\<forall>k \<in> set (Object_keys obj). plain k
        \<and> (instanceof_SQLFragment (get obj k) \<or> instanceof_ParentColumn (get obj k)
              \<longrightarrow> placeholder_free (get obj k)))"
| "placeholder_free v = True"
  by pat_completeness auto

termination placeholder_free
proof (relation "measure size", goal_cases)
  case 1
  show ?case by simp
next
  case (2 f x)
  then show ?case using size_in_set[of x "expressions f"] by (cases f) simp
next
  case (3 xs x)
  then show ?case using size_in_set[of x xs] by simp
next
  case (4 obj k)
  then show ?case using size_get_less[of obj k] by simp
next
  case (5 obj k)
  then show ?case using size_get_less[of obj k] by (auto simp: instanceof_ParentColumn_def)
next
  case (6 c obj k)
  then show ?case using size_get_less[of obj k] by (auto simp: instanceof_ParentColumn_def)
qed

text \<open>
  \<open>appends r r' vs\<close>: the accumulator \<open>r'\<close> is \<open>r\<close> with the values \<open>vs\<close> appended and with
  text appended that has no leading digit and whose placeholders are those of the appended
  values, in their order.
\<close>

definition appends :: "('q, 'r) SQLResultType \<Rightarrow> ('q, 'r) SQLResultType \<Rightarrow> ('q, 'r) jsval list
    \<Rightarrow> bool" where
  "appends r r' vs =
     ((\<exists>d. text r' = text r @ d \<and> no_leading_digit d
          \<and> placeholders d = [Suc (length (values r)) ..< Suc (length (values r) + length vs)])
      \<and> values r' = values r @ vs)"

subsection \<open>Two compilations\<close>

text \<open>
  \<open>same_effect r1 o1 r2 o2\<close>: the outcomes \<open>o1\<close>, from the accumulator \<open>r1\<close>, and \<open>o2\<close>, from
  \<open>r2\<close>, are the same error, or append the same text and the same values.
\<close>

definition same_effect :: "('q, 'r) SQLResultType \<Rightarrow> error + ('q, 'r) SQLResultType
    \<Rightarrow> ('q, 'r) SQLResultType \<Rightarrow> error + ('q, 'r) SQLResultType \<Rightarrow> bool" where
  "same_effect r1 o1 r2 o2 =
     (case o1 of
        Inl err \<Rightarrow> o2 = Inl err
      | Inr r1' \<Rightarrow> (\<exists>d vs r2'. text r1' = text r1 @ d \<and> values r1' = values r1 @ vs
                       \<and> o2 = Inr r2' \<and> text r2' = text r2 @ d \<and> values r2' = values r2 @ vs))"

subsection \<open>Fragments the theorems are tried on\<close>

text \<open>\<^verbatim>\<open>sql``\<close>, the fragment of one empty literal.\<close>

definition empty_query :: "(unit, unit) SQLFragment" where
  "empty_query = SQLFragment [''''] [] None id"

text \<open>
  \<^verbatim>\<open>sql`INSERT INTO ${"t"} (${cols(x)}) VALUES (${vals(x)}) RETURNING ${sql`${"a"} + ${param(7)}`}`\<close>
  for \<^verbatim>\<open>x = {b: 2, a: 1}\<close>.
\<close>

definition insert_query :: "(unit, unit) SQLFragment" where
  "insert_query =
     SQLFragment [''INSERT INTO '', '' ('', '') VALUES ('', '') RETURNING '', '''']
       [JString ''t'',
        ColumnNames (Inr [(''b'', JNumber 2), (''a'', JNumber 1)]),
        ColumnValues [(''b'', JNumber 2), (''a'', JNumber 1)],
        Fragment (SQLFragment ['''', '' + '', ''''] [JString ''a'', Parameter (JNumber 7)] None id)]
       None id"

text \<open>\<^verbatim>\<open>sql`SELECT ${self}`\<close>: at top level there is no current column.\<close>

definition self_query :: "(unit, unit) SQLFragment" where
  "self_query = SQLFragment [''SELECT '', ''''] [JSymbol self] None id"

text \<open>\<^verbatim>\<open>sql`SELECT ${raw("$1")}`\<close> and \<^verbatim>\<open>sql`LIMIT ${param(7)}0`\<close>.\<close>

definition raw_query :: "(unit, unit) SQLFragment" where
  "raw_query = SQLFragment [''SELECT '', ''''] [DangerousRawString ''$1''] None id"

definition digit_query :: "(unit, unit) SQLFragment" where
  "digit_query = SQLFragment [''LIMIT '', ''0''] [Parameter (JNumber 7)] None id"

text \<open>
  \<^verbatim>\<open>sql`SELECT * FROM ${"books"} WHERE ${{author: parent("id")}}`\<close>, a query nested in a
  query on \<^verbatim>\<open>authors\<close>: that table is pinned on it as its \<^verbatim>\<open>parentTable\<close>.
\<close>

definition nested_query :: "(unit, unit) SQLFragment" where
  "nested_query =
     SQLFragment [''SELECT * FROM '', '' WHERE '', '''']
       [JString ''books'', JObject [(''author'', ParentColumn ''id'')]] (Some ''authors'') id"

section \<open>Column names and quoting\<close>

lemma String_nat_small: "n < 10 \<Longrightarrow> String_nat n = [''0123456789'' ! n]"
  by (simp add: String_nat.simps)

text \<open>
  C8. A \<^verbatim>\<open>ColumnNames\<close> wrapping the empty array compiles without an error and leaves
  the accumulator as it was: no text, no placeholder and no value are added.
\<close>

theorem ColumnNames_empty_array:
  "compileExpression this (ColumnNames (Inl [])) result pt cc = Inr result"
  by (simp add: add_text_def)

text \<open>
  C9. Every name of a \<^verbatim>\<open>ColumnNames\<close>, an element of its array or a key of its object,
  is written between double quotes, whatever its first character, the names separated by a
  comma and a space, those of an object in sorted order, each once; no value is added. A
  name that begins with a double quote is wrapped again, where the same string as a bare
  identifier is passed through as it is: the array of the names \<^verbatim>\<open>"a"\<close> and \<^verbatim>\<open>b\<close>
  compiles to \<^verbatim>\<open>""a"", "b"\<close>, the bare identifier \<^verbatim>\<open>"a"\<close> to \<^verbatim>\<open>"a"\<close>.
\<close>

theorem ColumnNames_always_quoted:
  \<open>compileExpression this (ColumnNames (Inl names)) result pt cc =
     Inr \<lparr>text = text result @ join '', '' (map (\<lambda>k. [CHR 0x22] @ k @ [CHR 0x22]) names),
          values = values result\<rparr>
   \<and> compileExpression this (ColumnNames (Inr obj)) result pt cc =
     Inr \<lparr>text = text result
            @ join '', '' (map (\<lambda>k. [CHR 0x22] @ k @ [CHR 0x22]) (sort (remdups (map fst obj)))),
          values = values result\<rparr>
   \<and> sorted (sort (remdups (map fst obj))) \<and> distinct (sort (remdups (map fst obj)))
   \<and> set (sort (remdups (map fst obj))) = fst ` set obj
   \<and> compileExpression this (ColumnNames (Inl [n])) result pt cc =
     Inr \<lparr>text = text result @ [CHR 0x22] @ n @ [CHR 0x22], values = values result\<rparr>
   \<and> compileExpression this (ColumnNames (Inl [n, m])) result pt cc =
     Inr \<lparr>text = text result @ [CHR 0x22] @ n @ [CHR 0x22] @ [CHR '','', CHR '' '']
                   @ [CHR 0x22] @ m @ [CHR 0x22],
          values = values result\<rparr>
   \<and> compileExpression this (ColumnNames (Inr [(n, v)])) result pt cc =
     Inr \<lparr>text = text result @ [CHR 0x22] @ n @ [CHR 0x22], values = values result\<rparr>
   \<and> compileExpression this (ColumnNames (Inl [CHR 0x22 # n])) result pt cc =
     Inr \<lparr>text = text result @ [CHR 0x22, CHR 0x22] @ n @ [CHR 0x22], values = values result\<rparr>
   \<and> compileExpression this (ColumnNames (Inr [(CHR 0x22 # n, v)])) result pt cc =
     Inr \<lparr>text = text result @ [CHR 0x22, CHR 0x22] @ n @ [CHR 0x22], values = values result\<rparr>
   \<and> compileExpression this (JString (CHR 0x22 # n)) result pt cc =
     Inr \<lparr>text = text result @ CHR 0x22 # n, values = values result\<rparr>
   \<and> compileExpression this (ColumnNames (Inl [''"a"'', ''b''])) \<lparr>text = ''SELECT '', values = []\<rparr>
        pt cc
     = Inr \<lparr>text = ''SELECT ""a"", "b"'', values = []\<rparr>
   \<and> compileExpression this (ColumnNames (Inr [(''b'', JNumber 2), (''"a"'', JNumber 1)]))
        \<lparr>text = '''', values = []\<rparr> pt cc
     = Inr \<lparr>text = ''""a"", "b"'', values = []\<rparr>
   \<and> compileExpression this (JString ''"a"'') \<lparr>text = '''', values = []\<rparr> pt cc
     = Inr \<lparr>text = ''"a"'', values = []\<rparr>\<close>
proof -
  have keys: "sorted (sort (remdups (map fst obj)))" "distinct (sort (remdups (map fst obj)))"
    "set (sort (remdups (map fst obj))) = fst ` set obj"
    by simp_all
  show ?thesis
    unfolding conj_assoc
    by (intro conjI keys) (simp_all add: quoted_def[abs_def] add_text_def Object_keys_def)
qed

theorem ColumnNames_always_quoted_witness:
  \<open>compileExpression insert_query (ColumnNames (Inl [''id'', ''"Title"'', ''year'']))
       \<lparr>text = ''SELECT '', values = [JNull]\<rparr> (Some ''books'') (Some ''id'')
     = Inr \<lparr>text = ''SELECT "id", ""Title"", "year"'', values = [JNull]\<rparr>
   \<and> compileExpression insert_query
       (ColumnNames (Inr [(''year'', JNumber 1965), (''"Title"'', JString ''Dune''),
          (''id'', JNumber 9)]))
       \<lparr>text = ''INSERT INTO "books" ('', values = []\<rparr> None None
     = Inr \<lparr>text = ''INSERT INTO "books" (""Title"", "id", "year"'', values = []\<rparr>
   \<and> compileExpression insert_query (ColumnNames (Inl [''"'']))
       \<lparr>text = '''', values = []\<rparr> None None
     = Inr \<lparr>text = ''"""'', values = []\<rparr>
   \<and> compileExpression insert_query (JString ''"Title"'') \<lparr>text = '''', values = []\<rparr> None None
     = Inr \<lparr>text = ''"Title"'', values = []\<rparr>\<close>
proof -
  have keys: \<open>sort (remdups (map fst [(''year'', JNumber 1965 :: (unit, unit) jsval),
      (''"Title"'', JString ''Dune''), (''id'', JNumber 9)])) = [''"Title"'', ''id'', ''year'']\<close>
    by simp
  note array = ColumnNames_always_quoted[where this = insert_query
      and names = \<open>[''id'', ''"Title"'', ''year'']\<close>
      and result = "\<lparr>text = ''SELECT '', values = [JNull]\<rparr>"
      and pt = "Some ''books''" and cc = "Some ''id''"]
  note object = ColumnNames_always_quoted[where this = insert_query
      and obj = \<open>[(''year'', JNumber 1965), (''"Title"'', JString ''Dune''), (''id'', JNumber 9)]\<close>
      and result = \<open>\<lparr>text = ''INSERT INTO "books" ('', values = []\<rparr>\<close>
      and pt = None and cc = None]
  note quote = ColumnNames_always_quoted[where this = insert_query
      and n = \<open>''''\<close> and result = "\<lparr>text = '''', values = []\<rparr>" and pt = None and cc = None]
  note bare = ColumnNames_always_quoted[where this = insert_query
      and n = \<open>''Title"''\<close> and result = "\<lparr>text = '''', values = []\<rparr>"
      and pt = None and cc = None]
  have first: \<open>compileExpression insert_query (ColumnNames (Inl [''id'', ''"Title"'', ''year'']))
       \<lparr>text = ''SELECT '', values = [JNull]\<rparr> (Some ''books'') (Some ''id'')
     = Inr \<lparr>text = ''SELECT "id", ""Title"", "year"'', values = [JNull]\<rparr>\<close>
    using array by (simp del: compileExpression.simps)
  have second: \<open>compileExpression insert_query
       (ColumnNames (Inr [(''year'', JNumber 1965), (''"Title"'', JString ''Dune''),
          (''id'', JNumber 9)]))
       \<lparr>text = ''INSERT INTO "books" ('', values = []\<rparr> None None
     = Inr \<lparr>text = ''INSERT INTO "books" (""Title"", "id", "year"'', values = []\<rparr>\<close>
    using object by (simp only: keys) (simp del: compileExpression.simps)
  have third: \<open>compileExpression insert_query (ColumnNames (Inl [''"'']))
       \<lparr>text = '''', values = []\<rparr> None None
     = Inr \<lparr>text = ''"""'', values = []\<rparr>\<close>
    using quote by (simp del: compileExpression.simps)
  have fourth: \<open>compileExpression insert_query (JString ''"Title"'')
       \<lparr>text = '''', values = []\<rparr> None None
     = Inr \<lparr>text = ''"Title"'', values = []\<rparr>\<close>
    using bare by (simp del: compileExpression.simps)
  show ?thesis
    by (intro conjI first second third fourth)
qed

text \<open>
  C10. Quoting is the concatenation of a double quote, the name and a double quote, for a
  bare string identifier (one that does not begin with a double quote), a \<^verbatim>\<open>ColumnNames\<close>
  entry, a mapping key, the current column of the self marker, and the table and the column
  of a parent column reference. Nothing is escaped: the name goes into the text as it is,
  so a double quote inside it stays a double quote (the witness has the names \<^verbatim>\<open>a"b\<close>
  and \<^verbatim>\<open>c"d\<close>).
\<close>

theorem quoting_is_concatenation:
  "(take 1 s \<noteq> [CHR 0x22] \<longrightarrow>
      compileExpression this (JString s) result pt cc =
        Inr (add_text result ([CHR 0x22] @ s @ [CHR 0x22])))
   \<and> compileExpression this (ColumnNames (Inl [n])) result pt cc =
        Inr (add_text result ([CHR 0x22] @ n @ [CHR 0x22]))
   \<and> compileExpression this (ColumnNames (Inr [(k, v)])) result pt cc =
        Inr (add_text result ([CHR 0x22] @ k @ [CHR 0x22]))
   \<and> (\<not> instanceof_SQLFragment v \<and> \<not> instanceof_ParentColumn v \<longrightarrow>
      compileExpression this (JObject [(k, v)]) result pt cc =
        Inr \<lparr>text = text result @ ''('' @ [CHR 0x22] @ k @ [CHR 0x22] @ '' = $''
                    @ String_nat (Suc (length (values result))) @ '')'',
             values = values result @ [v]\<rparr>)
   \<and> (c \<noteq> [] \<longrightarrow>
      compileExpression this (JSymbol self) result pt (Some c) =
        Inr (add_text result ([CHR 0x22] @ c @ [CHR 0x22])))
   \<and> (own_table this pt = Some t \<and> t \<noteq> [] \<longrightarrow>
      compileExpression this (ParentColumn col) result pt cc =
        Inr (add_text result
          ([CHR 0x22] @ t @ [CHR 0x22] @ ''.'' @ [CHR 0x22] @ col @ [CHR 0x22])))"
  by (simp add: quoted_def add_text_def Object_keys_def get_def truthy_def template_def)

theorem quoting_is_concatenation_witness:
  \<open>compileExpression empty_query (JString ''a"b'') \<lparr>text = '''', values = []\<rparr> None None
     = Inr \<lparr>text = ''"a"b"'', values = []\<rparr>
   \<and> compileExpression empty_query (JObject [(''a"b'', JNumber 1)])
       \<lparr>text = '''', values = []\<rparr> None None
     = Inr \<lparr>text = ''("a"b" = $1)'', values = [JNumber 1]\<rparr>
   \<and> compileExpression empty_query (JSymbol self) \<lparr>text = '''', values = []\<rparr> None (Some ''a"b'')
     = Inr \<lparr>text = ''"a"b"'', values = []\<rparr>
   \<and> compileExpression empty_query (ParentColumn ''c"d'')
       \<lparr>text = '''', values = []\<rparr> (Some ''a"b'') None
     = Inr \<lparr>text = ''"a"b"."c"d"'', values = []\<rparr>\<close>
  using quoting_is_concatenation[where s = \<open>''a"b''\<close> and this = empty_query
      and result = "\<lparr>text = '''', values = []\<rparr>" and pt = None and cc = None
      and k = \<open>''a"b''\<close> and v = "JNumber 1" and c = \<open>''a"b''\<close>]
    quoting_is_concatenation[where this = empty_query
      and result = "\<lparr>text = '''', values = []\<rparr>" and pt = \<open>Some ''a"b''\<close> and cc = None
      and t = \<open>''a"b''\<close> and col = \<open>''c"d''\<close>]
  by (simp add: add_text_def own_table_def truthy_def empty_query_def String_nat_small)

section \<open>Errors\<close>

text \<open>
  C4, as amended. The self marker raises the error of the missing column context when the
  current column is undefined or the empty string, and a parent column reference raises the
  error of the missing table context when neither the table pinned on the enclosing fragment
  nor the inherited one is a non-empty string. With a non-empty current column the self
  marker appends the quoted column; with a non-empty table, the pinned one before the
  inherited one, a parent column reference appends the quoted table, a dot and the quoted
  column.
\<close>

theorem context_errors:
  "(\<not> truthy cc \<longrightarrow>
      compileExpression this (JSymbol self) result pt cc =
        Inl (Error ''The 'self' column alias has no meaning here''))
   \<and> (\<not> truthy (parentTable this) \<and> \<not> truthy pt \<longrightarrow>
      compileExpression this (ParentColumn col) result pt cc =
        Inl (Error ''The 'parent' table alias has no meaning here''))
   \<and> (c \<noteq> [] \<longrightarrow>
      compileExpression this (JSymbol self) result pt (Some c) =
        Inr (add_text result (quoted c)))
   \<and> (t \<noteq> [] \<and> (parentTable this = Some t \<or> \<not> truthy (parentTable this) \<and> pt = Some t) \<longrightarrow>
      compileExpression this (ParentColumn col) result pt cc =
        Inr (add_text result (quoted t @ ''.'' @ quoted col)))"
  by (auto simp add: truthy_def template_def own_table_def)

theorem context_errors_witness:
  \<open>compileExpression empty_query (JSymbol self) \<lparr>text = '''', values = []\<rparr> None None
     = Inl (Error ''The 'self' column alias has no meaning here'')
   \<and> compileExpression empty_query (ParentColumn ''id'') \<lparr>text = '''', values = []\<rparr> None None
     = Inl (Error ''The 'parent' table alias has no meaning here'')
   \<and> compileExpression empty_query (JSymbol self) \<lparr>text = '''', values = []\<rparr> None (Some ''name'')
     = Inr \<lparr>text = ''"name"'', values = []\<rparr>
   \<and> compileExpression empty_query (ParentColumn ''id'')
       \<lparr>text = '''', values = []\<rparr> (Some ''users'') None
     = Inr \<lparr>text = ''"users"."id"'', values = []\<rparr>\<close>
  using context_errors[where cc = None and this = empty_query
      and result = "\<lparr>text = '''', values = []\<rparr>" and pt = None and col = "''id''"
      and c = "''name''"]
    context_errors[where cc = None and this = empty_query
      and result = "\<lparr>text = '''', values = []\<rparr>" and pt = "Some ''users''" and col = "''id''"
      and t = "''users''"]
  by (simp add: truthy_def empty_query_def add_text_def quoted_def)

text \<open>
  The sentence of the specification fails where the current column is present and empty, the key
  of \<^verbatim>\<open>{"": sql`${self}`}\<close>: the self marker raises the error.
\<close>

theorem self_empty_column_counterexample:
  "compileExpression empty_query (JSymbol self) \<lparr>text = '''', values = []\<rparr> None (Some '''')
    = Inl (Error ''The 'self' column alias has no meaning here'')"
  by (simp add: truthy_def)

text \<open>
  C5, as amended. A value whose \<^verbatim>\<open>typeof\<close> is \<^verbatim>\<open>undefined\<close>, \<^verbatim>\<open>boolean\<close>,
  \<^verbatim>\<open>number\<close>, \<^verbatim>\<open>bigint\<close> or \<^verbatim>\<open>function\<close> raises the error of the alien object,
  whose message ends with the value as a string: \<^verbatim>\<open>undefined\<close>, \<^verbatim>\<open>true\<close>,
  \<^verbatim>\<open>false\<close>, the digits of a number that is an integer from \<open>-(2^53)\<close> up to \<open>2^53 - 1\<close>,
  what any other number prints as, the digits of a bigint, the source text of a function.
  An object of a class the compiler does not know is no error: it is compiled as the
  mapping of its own enumerable keys.
\<close>

theorem alien_values:
  "(typeof v = ''undefined'' \<or> typeof v = ''boolean'' \<or> typeof v = ''number''
      \<or> typeof v = ''bigint'' \<or> typeof v = ''function'' \<longrightarrow>
      (\<exists>description. compileExpression this v result pt cc =
         Inl (Error (''Alien object while interpolating SQL: '' @ description))))
   \<and> compileExpression this JUndefined result pt cc =
      Inl (Error ''Alien object while interpolating SQL: undefined'')
   \<and> compileExpression this (JBoolean True) result pt cc =
      Inl (Error ''Alien object while interpolating SQL: true'')
   \<and> compileExpression this (JBoolean False) result pt cc =
      Inl (Error ''Alien object while interpolating SQL: false'')
   \<and> compileExpression this (JNumber n) result pt cc =
      Inl (Error (''Alien object while interpolating SQL: ''
        @ (if sint n < 0 then ''-'' @ String_nat (nat (- sint n)) else String_nat (nat (sint n)))))
   \<and> - (2 ^ 53) \<le> sint n \<and> sint n < 2 ^ 53
   \<and> compileExpression this (JOtherNumber s) result pt cc =
      Inl (Error (''Alien object while interpolating SQL: '' @ s))
   \<and> compileExpression this (JBigInt i) result pt cc =
      Inl (Error (''Alien object while interpolating SQL: ''
        @ (if i < 0 then ''-'' @ String_nat (nat (- i)) else String_nat (nat i))))
   \<and> compileExpression this (JFunction s) result pt cc =
      Inl (Error (''Alien object while interpolating SQL: '' @ s))
   \<and> compileExpression this (JInstance c obj) result pt cc =
      compileExpression this (JObject obj) result pt cc"
  apply (intro conjI impI)
  subgoal by (cases v) (simp_all add: alien_def)
  subgoal by (simp add: alien_def)
  subgoal by (simp add: alien_def)
  subgoal by (simp add: alien_def)
  subgoal by (simp add: alien_def String_int_def)
  subgoal using sint_ge[of n] by simp
  subgoal using sint_lt[of n] by simp
  subgoal by (simp add: alien_def)
  subgoal by (simp add: alien_def String_int_def)
  subgoal by (simp add: alien_def)
  subgoal by simp
  done

theorem alien_values_witness:
  "typeof (JNumber (- 42) :: (unit, unit) jsval) = ''number''
   \<and> (\<exists>description.
        compileExpression empty_query (JNumber (- 42)) \<lparr>text = '''', values = []\<rparr> None None
          = Inl (Error (''Alien object while interpolating SQL: '' @ description)))
   \<and> compileExpression empty_query (JNumber (- 42)) \<lparr>text = '''', values = []\<rparr> None None
     = Inl (Error ''Alien object while interpolating SQL: -42'')
   \<and> compileExpression empty_query (JNumber 9007199254740991)
        \<lparr>text = '''', values = []\<rparr> None None
     = Inl (Error ''Alien object while interpolating SQL: 9007199254740991'')
   \<and> compileExpression empty_query (JOtherNumber ''1152921504606847000'')
        \<lparr>text = '''', values = []\<rparr> None None
     = Inl (Error ''Alien object while interpolating SQL: 1152921504606847000'')
   \<and> compileExpression empty_query (JOtherNumber ''0.5'') \<lparr>text = '''', values = []\<rparr> None None
     = Inl (Error ''Alien object while interpolating SQL: 0.5'')
   \<and> compileExpression empty_query (JBigInt 1152921504606846976)
        \<lparr>text = '''', values = []\<rparr> None None
     = Inl (Error ''Alien object while interpolating SQL: 1152921504606846976'')
   \<and> compileExpression empty_query (JFunction ''() => 1'') \<lparr>text = '''', values = []\<rparr> None None
     = Inl (Error ''Alien object while interpolating SQL: () => 1'')"
proof -
  have number: "typeof (JNumber (- 42) :: (unit, unit) jsval) = ''number''"
    by simp
  have digits: "sint (- 42 :: safe_integer) = - 42"
    "sint (9007199254740991 :: safe_integer) = 9007199254740991"
    "String_nat 42 = ''42''"
    "String_nat 9007199254740991 = ''9007199254740991''"
    "String_nat 1152921504606846976 = ''1152921504606846976''"
    by (simp_all add: String_nat.simps)
  note small = alien_values[where v = "JNumber (- 42)" and n = "- 42" and this = empty_query
      and result = "\<lparr>text = '''', values = []\<rparr>" and pt = None and cc = None
      and s = "''1152921504606847000''" and i = 1152921504606846976]
  note large = alien_values[where v = JUndefined and n = 9007199254740991
      and this = empty_query and result = "\<lparr>text = '''', values = []\<rparr>"
      and pt = None and cc = None and s = "''0.5''" and i = 0]
  note source = alien_values[where v = JUndefined and n = 0
      and this = empty_query and result = "\<lparr>text = '''', values = []\<rparr>"
      and pt = None and cc = None and s = "''() => 1''" and i = 0]
  from small number
  have some: "\<exists>description.
      compileExpression empty_query (JNumber (- 42)) \<lparr>text = '''', values = []\<rparr> None None
        = Inl (Error (''Alien object while interpolating SQL: '' @ description))"
    by blast
  from small
  have negative: "compileExpression empty_query (JNumber (- 42))
      \<lparr>text = '''', values = []\<rparr> None None
        = Inl (Error ''Alien object while interpolating SQL: -42'')"
    by (simp add: digits del: compileExpression.simps)
  from large
  have greatest: "compileExpression empty_query (JNumber 9007199254740991)
      \<lparr>text = '''', values = []\<rparr> None None
        = Inl (Error ''Alien object while interpolating SQL: 9007199254740991'')"
    by (simp add: digits del: compileExpression.simps)
  from small
  have rounded: "compileExpression empty_query (JOtherNumber ''1152921504606847000'')
      \<lparr>text = '''', values = []\<rparr> None None
        = Inl (Error ''Alien object while interpolating SQL: 1152921504606847000'')"
    by (simp del: compileExpression.simps)
  from large
  have fraction: "compileExpression empty_query (JOtherNumber ''0.5'')
      \<lparr>text = '''', values = []\<rparr> None None
        = Inl (Error ''Alien object while interpolating SQL: 0.5'')"
    by (simp del: compileExpression.simps)
  from small
  have bigint: "compileExpression empty_query (JBigInt 1152921504606846976)
      \<lparr>text = '''', values = []\<rparr> None None
        = Inl (Error ''Alien object while interpolating SQL: 1152921504606846976'')"
    by (simp add: digits del: compileExpression.simps)
  from source
  have arrow: "compileExpression empty_query (JFunction ''() => 1'')
      \<lparr>text = '''', values = []\<rparr> None None
        = Inl (Error ''Alien object while interpolating SQL: () => 1'')"
    by (simp del: compileExpression.simps)
  show ?thesis
    by (intro conjI number some negative greatest rounded fraction bigint arrow)
qed

text \<open>
  The sentence of the specification fails at \<^verbatim>\<open>new Date()\<close>, which is none of the recognized
  kinds and has no enumerable key of its own: it compiles to \<^verbatim>\<open>TRUE\<close>.
\<close>

theorem unrecognized_object_counterexample:
  "\<not> recognized (JInstance ''Date'' [] :: (unit, unit) jsval)
   \<and> compileExpression empty_query (JInstance ''Date'' []) \<lparr>text = '''', values = []\<rparr> None None
      = Inr \<lparr>text = ''TRUE'', values = []\<rparr>"
  by (simp add: Object_keys_def add_text_def)

text \<open>
  Two more values that are none of the recognized kinds: \<^verbatim>\<open>null\<close> is an object for
  \<^verbatim>\<open>typeof\<close> and \<^verbatim>\<open>Object.keys\<close> throws on it, and the message of the alien object
  cannot be built for a symbol.
\<close>

lemma null_and_symbols:
  "compileExpression this JNull result pt cc =
      Inl (TypeError ''Cannot convert undefined or null to object'')
   \<and> compileExpression this (JSymbol all) result pt cc =
      Inl (TypeError ''Cannot convert a Symbol value to a string'')
   \<and> compileExpression this (JSymbol (OtherSymbol d)) result pt cc =
      Inl (TypeError ''Cannot convert a Symbol value to a string'')"
  by simp

section \<open>Running a fragment\<close>

text \<open>
  C6. When the compilation of a fragment fails, \<^verbatim>\<open>run\<close> fails with the same error and
  has done nothing: nothing is logged and \<^verbatim>\<open>query\<close> is not called. Whatever \<^verbatim>\<open>run\<close>
  hands to \<^verbatim>\<open>query\<close> is the query of a compilation that has succeeded, so no partly
  built query is submitted.
\<close>

theorem run_fails_fast:
  "(compile this \<lparr>text = '''', values = []\<rparr> None None = Inl err \<longrightarrow>
      run this verbose query w = (Inl err, w))
   \<and> submitted (snd (run this verbose query w)) =
       submitted w @ (case compile this \<lparr>text = '''', values = []\<rparr> None None of
                        Inl _ \<Rightarrow> [] | Inr q \<Rightarrow> [q])"
  by (simp add: run_def Let_def split: sum.splits)

theorem run_fails_fast_witness:
  "compile self_query \<lparr>text = '''', values = []\<rparr> None None
     = Inl (Error ''The 'self' column alias has no meaning here'')
   \<and> run self_query True (\<lambda>q. Inr ()) \<lparr>logged = [], submitted = []\<rparr>
     = (Inl (Error ''The 'self' column alias has no meaning here''),
        \<lparr>logged = [], submitted = []\<rparr>)"
proof -
  have failed: "compile self_query \<lparr>text = '''', values = []\<rparr> None None
      = Inl (Error ''The 'self' column alias has no meaning here'')"
    by (simp add: self_query_def truthy_def own_table_def add_text_def)
  with run_fails_fast[of self_query "Error ''The 'self' column alias has no meaning here''"
      True "\<lambda>q. Inr ()" "\<lparr>logged = [], submitted = []\<rparr>"]
  show ?thesis by blast
qed

section \<open>Mappings, column names and column values\<close>

lemma own_table_idem [simp]: "own_table this (own_table this pt) = own_table this pt"
  by (simp add: own_table_def)

lemma length_values_add_text [simp]: "length (values (add_text r s)) = length (values r)"
  by (simp add: add_text_def)

lemma bind_parameter_simps [simp]:
  "text (bind_parameter v r) = text r @ CHR ''$'' # String_nat (Suc (length (values r)))"
  "values (bind_parameter v r) = values r @ [v]"
  by (simp_all add: bind_parameter_def)

lemma separated_Cons:
  "separated sep (c # cs) r = (case c r of Inl err \<Rightarrow> Inl err | Inr r' \<Rightarrow> each_after sep cs r')"
proof (induction cs arbitrary: c r)
  case Nil
  show ?case by (simp split: sum.splits)
next
  case (Cons c' cs)
  show ?case by (simp add: Cons split: sum.splits)
qed

text \<open>The keys in sorted order depend on the object as a map only, not on its insertion order.\<close>

lemma sort_keys_Nil: "sort (Object_keys obj) = [] \<longleftrightarrow> obj = []"
  by (cases obj) (auto simp: Object_keys_def dest: arg_cong[where f = set])

lemma keys_cong: "map_of obj = map_of obj' \<Longrightarrow> sort (Object_keys obj) = sort (Object_keys obj')"
proof -
  assume "map_of obj = map_of obj'"
  then have "dom (map_of obj) = dom (map_of obj')" by simp
  then have s: "set (map fst obj) = set (map fst obj')" by (simp add: dom_map_of_conv_image_fst)
  show ?thesis unfolding Object_keys_def sorted_list_of_set_sort_remdups[symmetric] s ..
qed

lemma get_cong: "map_of obj = map_of obj' \<Longrightarrow> get obj = get obj'"
  by (auto simp: get_def fun_eq_iff)

lemma sorted_keys:
  "sorted (sort (Object_keys obj)) \<and> distinct (sort (Object_keys obj))
    \<and> set (sort (Object_keys obj)) = fst ` set obj"
  by (simp add: Object_keys_def)

subsection \<open>The loop over a \<^verbatim>\<open>Whereable\<close>\<close>

lemma where_step:
  "(if instanceof_SQLFragment (get v k) then
      (case compileExpression this (get v k) (add_text r ''('') (own_table this pt) (Some k) of
         Inl err \<Rightarrow> Inl err
       | Inr r' \<Rightarrow> Inr (add_text r' '')''))
    else compileExpression this
        (if instanceof_ParentColumn (get v k) then get v k else Parameter (get v k))
        (add_text r (quoted k @ '' = '')) (own_table this pt) (Some k))
   = conjunct this pt k (get v k) r"
  by (cases "get v k") (simp_all add: conjunct_def bind_parameter_def add_text_def)

lemma where_for_each_after:
  "0 < i \<Longrightarrow> where_for this v i ks r (own_table this pt)
     = each_after '' AND '' (map (\<lambda>key. conjunct this pt key (get v key)) ks) r"
proof (induction ks arbitrary: i r)
  case Nil
  show ?case by simp
next
  case (Cons k ks)
  show ?case using Cons.prems Cons.IH[of "Suc i"]
    by (simp add: where_step Let_def split: sum.splits)
qed

lemma where_for_separated:
  "where_for this v 0 ks r (own_table this pt)
     = separated '' AND '' (map (\<lambda>key. conjunct this pt key (get v key)) ks) r"
proof (cases ks)
  case Nil
  then show ?thesis by simp
next
  case (Cons k ks')
  show ?thesis unfolding Cons
    using where_for_each_after[of "Suc 0" this v ks' _ pt]
    by (simp add: where_step Let_def separated_Cons split: sum.splits)
qed

lemma JObject_refines: "compileExpression this (JObject obj) r pt cc = Mapping_spec this obj r pt"
  by (simp add: Mapping_spec_def where_for_separated sort_keys_Nil Let_def)

lemma JObject_order:
  assumes "map_of obj = map_of obj'"
  shows "compileExpression this (JObject obj) r pt cc = compileExpression this (JObject obj') r pt cc"
proof -
  have "(obj = []) = (obj' = [])"
    using keys_cong[OF assms] sort_keys_Nil[of obj] sort_keys_Nil[of obj'] by simp
  then show ?thesis
    unfolding JObject_refines Mapping_spec_def keys_cong[OF assms] get_cong[OF assms] by simp
qed

text \<open>Values that are all compiled as parameters: the placeholders are numbered on.\<close>

lemma add_text_simps:
  "text (add_text r s) = text r @ s" "values (add_text r s) = values r"
  by (simp_all add: add_text_def)

lemma join_Cons: "join sep (x # xs) = x @ concat (map (\<lambda>y. sep @ y) xs)"
  by (induction xs arbitrary: x) simp_all

lemma upt_shift: "[Suc n ..< Suc (Suc (n + m))] = Suc n # [Suc (Suc n) ..< Suc (Suc (n + m))]"
  by (simp add: upt_conv_Cons del: upt_Suc)

lemma each_after_keyed_parameters:
  "each_after sep (map (\<lambda>k r. Inr (bind_parameter (f k) (add_text r (g k)))) ks) r =
     Inr \<lparr>text = text r @ concat (map (\<lambda>(k, i). sep @ g k @ CHR ''$'' # String_nat i)
               (zip ks [Suc (length (values r)) ..< Suc (length (values r) + length ks)])),
          values = values r @ map f ks\<rparr>"
proof (induction ks arbitrary: r)
  case Nil
  show ?case by simp
next
  case (Cons k ks)
  show ?case by (simp add: Cons add_text_simps upt_shift del: upt_Suc)
qed

lemma separated_keyed_parameters:
  "separated sep (map (\<lambda>k r. Inr (bind_parameter (f k) (add_text r (g k)))) ks) r =
     Inr \<lparr>text = text r @ join sep (map (\<lambda>(k, i). g k @ CHR ''$'' # String_nat i)
               (zip ks [Suc (length (values r)) ..< Suc (length (values r) + length ks)])),
          values = values r @ map f ks\<rparr>"
proof (cases ks)
  case Nil
  then show ?thesis by simp
next
  case (Cons k ks')
  show ?thesis unfolding Cons
    by (simp add: separated_Cons each_after_keyed_parameters join_Cons comp_def add_text_simps
        case_prod_unfold upt_shift del: upt_Suc)
qed

lemma conjunct_plain:
  "\<not> instanceof_SQLFragment v \<Longrightarrow> \<not> instanceof_ParentColumn v \<Longrightarrow>
     conjunct this pt k v = (\<lambda>r. Inr (bind_parameter v (add_text r (quoted k @ '' = ''))))"
  by (cases v) (auto simp: conjunct_def fun_eq_iff)

lemma JObject_plain:
  assumes "obj \<noteq> []"
    and "\<forall>k \<in> set (Object_keys obj).
      \<not> instanceof_SQLFragment (get obj k) \<and> \<not> instanceof_ParentColumn (get obj k)"
  shows "compileExpression this (JObject obj) r pt cc =
     Inr \<lparr>text = text r @ ''('' @ join '' AND ''
               (map (\<lambda>(k, i). quoted k @ '' = $'' @ String_nat i)
                 (zip (sort (Object_keys obj))
                   [Suc (length (values r)) ..<
                    Suc (length (values r) + length (Object_keys obj))]))
             @ '')'',
          values = values r @ map (get obj) (sort (Object_keys obj))\<rparr>"
proof -
  have eq: "map (\<lambda>key. conjunct this pt key (get obj key)) (sort (Object_keys obj))
      = map (\<lambda>key r. Inr (bind_parameter (get obj key) (add_text r (quoted key @ '' = ''))))
          (sort (Object_keys obj))"
    using assms(2) by (intro map_cong refl conjunct_plain) auto
  show ?thesis
    unfolding JObject_refines Mapping_spec_def eq
    using assms(1)
      separated_keyed_parameters[of "'' AND ''" "get obj" "\<lambda>k. quoted k @ '' = ''"
        "sort (Object_keys obj)" "add_text r ''(''"]
    by (simp add: add_text_def del: upt_Suc)
qed

text \<open>
  C2. An empty mapping compiles to \<^verbatim>\<open>TRUE\<close>. A mapping compiles as \<open>Mapping_spec\<close> says:
  in parentheses, the conjuncts of its keys in sorted order, separated by \<^verbatim>\<open>AND\<close>, a
  conjunct being the parenthesized compiled fragment, \<^verbatim>\<open>"key" = "parentTable"."col"\<close>
  or \<^verbatim>\<open>"key" = $n\<close> with the value bound; when every value is bound, the n-th sorted key
  stands before the n-th new placeholder and the values appended are those of the sorted
  keys. Two objects that are the same mapping compile the same, whatever the order their
  keys were inserted in; \<^verbatim>\<open>{a: 1, b: 2}\<close> and \<^verbatim>\<open>{b: 2, a: 1}\<close> both compile to
  \<^verbatim>\<open>("a" = $1 AND "b" = $2)\<close> with the values 1, 2.

  The text of each kind of conjunct, for a mapping of one key \<open>k\<close>, where the parent table
  \<open>t\<close> is the one pinned on the compiling fragment or else the inherited one: a parent
  column reference gives \<^verbatim>\<open>("k" = "t"."col")\<close> and no value, a nested fragment gives its own
  compilation, with \<open>k\<close> as current column, between \<^verbatim>\<open>((\<close> and \<^verbatim>\<open>))\<close>, any other value
  gives \<^verbatim>\<open>("k" = $n)\<close> and is appended to the values. A mapping of a parent column
  reference under the key \<open>k1\<close> and a bound value under a greater key \<open>k2\<close> gives
  \<^verbatim>\<open>("k1" = "t"."col" AND "k2" = $n)\<close>.
\<close>

theorem Whereable_conjunction:
  \<open>compileExpression this (JObject []) r pt cc = Inr (add_text r ''TRUE'')
   \<and> compileExpression this (JObject obj) r pt cc = Mapping_spec this obj r pt
   \<and> (obj \<noteq> [] \<and> (\<forall>k \<in> set (Object_keys obj).
          \<not> instanceof_SQLFragment (get obj k) \<and> \<not> instanceof_ParentColumn (get obj k)) \<longrightarrow>
        compileExpression this (JObject obj) r pt cc =
          Inr \<lparr>text = text r @ ''('' @ join '' AND ''
                    (map (\<lambda>(k, i). quoted k @ '' = $'' @ String_nat i)
                      (zip (sort (Object_keys obj))
                        [Suc (length (values r)) ..<
                         Suc (length (values r) + length (Object_keys obj))]))
                  @ '')'',
               values = values r @ map (get obj) (sort (Object_keys obj))\<rparr>)
   \<and> sorted (sort (Object_keys obj)) \<and> distinct (sort (Object_keys obj))
   \<and> set (sort (Object_keys obj)) = fst ` set obj
   \<and> (map_of obj = map_of obj' \<longrightarrow>
        compileExpression this (JObject obj) r pt cc = compileExpression this (JObject obj') r pt cc)
   \<and> compileExpression this (JObject [(''a'', JNumber 1), (''b'', JNumber 2)])
          \<lparr>text = '''', values = []\<rparr> pt cc
        = Inr \<lparr>text = ''("a" = $1 AND "b" = $2)'', values = [JNumber 1, JNumber 2]\<rparr>
   \<and> compileExpression this (JObject [(''b'', JNumber 2), (''a'', JNumber 1)])
          \<lparr>text = '''', values = []\<rparr> pt cc
        = Inr \<lparr>text = ''("a" = $1 AND "b" = $2)'', values = [JNumber 1, JNumber 2]\<rparr>
   \<and> compileExpression this (JObject []) r pt cc
        = Inr \<lparr>text = text r @ [CHR ''T'', CHR ''R'', CHR ''U'', CHR ''E''], values = values r\<rparr>
   \<and> ((parentTable this = Some t
          \<or> (parentTable this = None \<or> parentTable this = Some []) \<and> pt = Some t) \<and> t \<noteq> [] \<longrightarrow>
        compileExpression this (JObject [(k, ParentColumn col)]) r pt cc =
          Inr \<lparr>text = text r @ ''('' @ [CHR 0x22] @ k @ [CHR 0x22] @ '' = ''
                    @ [CHR 0x22] @ t @ [CHR 0x22] @ ''.'' @ [CHR 0x22] @ col @ [CHR 0x22] @ '')'',
               values = values r\<rparr>)
   \<and> compileExpression this (JObject [(k, Fragment f)]) r pt cc =
        (case compile f \<lparr>text = text r @ ''(('', values = values r\<rparr>
                (if parentTable this = None \<or> parentTable this = Some [] then pt
                 else parentTable this) (Some k) of
           Inl err \<Rightarrow> Inl err
         | Inr b \<Rightarrow> Inr \<lparr>text = text b @ ''))'', values = values b\<rparr>)
   \<and> (\<not> instanceof_SQLFragment v \<and> \<not> instanceof_ParentColumn v \<longrightarrow>
        compileExpression this (JObject [(k, v)]) r pt cc =
          Inr \<lparr>text = text r @ ''('' @ [CHR 0x22] @ k @ [CHR 0x22] @ '' = $''
                    @ String_nat (Suc (length (values r))) @ '')'',
               values = values r @ [v]\<rparr>)
   \<and> (k1 < k2 \<and> \<not> instanceof_SQLFragment v \<and> \<not> instanceof_ParentColumn v
        \<and> (parentTable this = Some t
          \<or> (parentTable this = None \<or> parentTable this = Some []) \<and> pt = Some t) \<and> t \<noteq> [] \<longrightarrow>
        compileExpression this (JObject [(k2, v), (k1, ParentColumn col)]) r pt cc =
          Inr \<lparr>text = text r @ ''('' @ [CHR 0x22] @ k1 @ [CHR 0x22] @ '' = ''
                    @ [CHR 0x22] @ t @ [CHR 0x22] @ ''.'' @ [CHR 0x22] @ col @ [CHR 0x22]
                    @ '' AND '' @ [CHR 0x22] @ k2 @ [CHR 0x22] @ '' = $''
                    @ String_nat (Suc (length (values r))) @ '')'',
               values = values r @ [v]\<rparr>)\<close>
proof (intro conjI impI)
  show "compileExpression this (JObject []) r pt cc = Inr (add_text r ''TRUE'')"
    by (simp add: Object_keys_def)
  show "compileExpression this (JObject obj) r pt cc = Mapping_spec this obj r pt"
    by (rule JObject_refines)
  show "compileExpression this (JObject obj) r pt cc =
          Inr \<lparr>text = text r @ ''('' @ join '' AND ''
                    (map (\<lambda>(k, i). quoted k @ '' = $'' @ String_nat i)
                      (zip (sort (Object_keys obj))
                        [Suc (length (values r)) ..<
                         Suc (length (values r) + length (Object_keys obj))]))
                  @ '')'',
               values = values r @ map (get obj) (sort (Object_keys obj))\<rparr>"
    if "obj \<noteq> [] \<and> (\<forall>k \<in> set (Object_keys obj).
          \<not> instanceof_SQLFragment (get obj k) \<and> \<not> instanceof_ParentColumn (get obj k))"
    using that JObject_plain[of obj this r pt cc] by blast
  show "sorted (sort (Object_keys obj))" "distinct (sort (Object_keys obj))"
    "set (sort (Object_keys obj)) = fst ` set obj"
    using sorted_keys[of obj] by blast+
  show "compileExpression this (JObject obj) r pt cc = compileExpression this (JObject obj') r pt cc"
    if "map_of obj = map_of obj'"
    using that by (rule JObject_order)
  show \<open>compileExpression this (JObject [(''a'', JNumber 1), (''b'', JNumber 2)])
          \<lparr>text = '''', values = []\<rparr> pt cc
        = Inr \<lparr>text = ''("a" = $1 AND "b" = $2)'', values = [JNumber 1, JNumber 2]\<rparr>\<close>
    by (simp add: Object_keys_def get_def add_text_def quoted_def String_nat_small)
  show \<open>compileExpression this (JObject [(''b'', JNumber 2), (''a'', JNumber 1)])
          \<lparr>text = '''', values = []\<rparr> pt cc
        = Inr \<lparr>text = ''("a" = $1 AND "b" = $2)'', values = [JNumber 1, JNumber 2]\<rparr>\<close>
    by (simp add: Object_keys_def get_def add_text_def quoted_def String_nat_small)
  show "compileExpression this (JObject []) r pt cc
        = Inr \<lparr>text = text r @ [CHR ''T'', CHR ''R'', CHR ''U'', CHR ''E''], values = values r\<rparr>"
    by (simp add: Object_keys_def add_text_def)
  show "compileExpression this (JObject [(k, ParentColumn col)]) r pt cc =
          Inr \<lparr>text = text r @ ''('' @ [CHR 0x22] @ k @ [CHR 0x22] @ '' = ''
                    @ [CHR 0x22] @ t @ [CHR 0x22] @ ''.'' @ [CHR 0x22] @ col @ [CHR 0x22] @ '')'',
               values = values r\<rparr>"
    if "(parentTable this = Some t
          \<or> (parentTable this = None \<or> parentTable this = Some []) \<and> pt = Some t) \<and> t \<noteq> []"
    using that
    by (auto simp add: Object_keys_def get_def add_text_def quoted_def own_table_def truthy_def
        template_def)
  show "compileExpression this (JObject [(k, Fragment f)]) r pt cc =
        (case compile f \<lparr>text = text r @ ''(('', values = values r\<rparr>
                (if parentTable this = None \<or> parentTable this = Some [] then pt
                 else parentTable this) (Some k) of
           Inl err \<Rightarrow> Inl err
         | Inr b \<Rightarrow> Inr \<lparr>text = text b @ ''))'', values = values b\<rparr>)"
  proof -
    have table: "own_table this pt
        = (if parentTable this = None \<or> parentTable this = Some [] then pt else parentTable this)"
      by (cases "parentTable this") (simp_all add: own_table_def truthy_def)
    have opened: "r\<lparr>text := text r @ ''((''\<rparr> = \<lparr>text = text r @ ''(('', values = values r\<rparr>"
      by simp
    have "compileExpression this (JObject [(k, Fragment f)]) r pt cc =
        (case compile f \<lparr>text = text r @ ''(('', values = values r\<rparr> (own_table this pt) (Some k) of
           Inl err \<Rightarrow> Inl err
         | Inr b \<Rightarrow> Inr \<lparr>text = text b @ ''))'', values = values b\<rparr>)"
      by (simp add: Object_keys_def get_def add_text_def opened del: compile.simps
          split: sum.splits)
    then show ?thesis
      by (simp only: table)
  qed
  show "compileExpression this (JObject [(k, v)]) r pt cc =
          Inr \<lparr>text = text r @ ''('' @ [CHR 0x22] @ k @ [CHR 0x22] @ '' = $''
                    @ String_nat (Suc (length (values r))) @ '')'',
               values = values r @ [v]\<rparr>"
    if "\<not> instanceof_SQLFragment v \<and> \<not> instanceof_ParentColumn v"
    using that by (simp add: Object_keys_def get_def add_text_def quoted_def)
  show "compileExpression this (JObject [(k2, v), (k1, ParentColumn col)]) r pt cc =
          Inr \<lparr>text = text r @ ''('' @ [CHR 0x22] @ k1 @ [CHR 0x22] @ '' = ''
                    @ [CHR 0x22] @ t @ [CHR 0x22] @ ''.'' @ [CHR 0x22] @ col @ [CHR 0x22]
                    @ '' AND '' @ [CHR 0x22] @ k2 @ [CHR 0x22] @ '' = $''
                    @ String_nat (Suc (length (values r))) @ '')'',
               values = values r @ [v]\<rparr>"
    if "k1 < k2 \<and> \<not> instanceof_SQLFragment v \<and> \<not> instanceof_ParentColumn v
        \<and> (parentTable this = Some t
          \<or> (parentTable this = None \<or> parentTable this = Some []) \<and> pt = Some t) \<and> t \<noteq> []"
  proof -
    from that have keys: "sort (Object_keys [(k2, v), (k1, ParentColumn col)]) = [k1, k2]"
      by (auto simp add: Object_keys_def)
    from that have table: "own_table this pt = Some t" "own_table this (Some t) = Some t"
      "t \<noteq> []"
      by (auto simp add: own_table_def truthy_def)
    from that have reads: "get [(k2, v), (k1, ParentColumn col)] k1 = ParentColumn col"
      "get [(k2, v), (k1, ParentColumn col)] k2 = v"
      by (auto simp add: get_def)
    from that show ?thesis
      by (simp add: keys table reads add_text_def quoted_def truthy_def template_def Let_def)
  qed
qed

theorem Whereable_conjunction_witness:
  \<open>map_of [(''id'', JNumber 5 :: (unit, unit) jsval), (''author'', ParentColumn ''id'')]
     = map_of [(''author'', ParentColumn ''id''), (''id'', JNumber 5)]
   \<and> compileExpression empty_query (JObject [(''id'', JNumber 5), (''author'', ParentColumn ''id'')])
        \<lparr>text = '''', values = []\<rparr> (Some ''books'') None
     = compileExpression empty_query (JObject [(''author'', ParentColumn ''id''), (''id'', JNumber 5)])
        \<lparr>text = '''', values = []\<rparr> (Some ''books'') None
   \<and> compileExpression empty_query (JObject [(''title'', JString ''Dune''), (''id'', JNumber 9)])
        \<lparr>text = ''WHERE '', values = [JNull]\<rparr> None None
     = Inr \<lparr>text = ''WHERE ("id" = $2 AND "title" = $3)'',
            values = [JNull, JNumber 9, JString ''Dune'']\<rparr>
   \<and> compileExpression empty_query (JObject [(''id'', JNumber 5), (''author'', ParentColumn ''id'')])
        \<lparr>text = '''', values = []\<rparr> (Some ''books'') None
     = Inr \<lparr>text = ''("author" = "books"."id" AND "id" = $1)'', values = [JNumber 5]\<rparr>
   \<and> compileExpression nested_query (JObject [(''author'', ParentColumn ''id'')])
        \<lparr>text = ''WHERE '', values = []\<rparr> (Some ''books'') None
     = Inr \<lparr>text = ''WHERE ("author" = "authors"."id")'', values = []\<rparr>
   \<and> compileExpression empty_query
        (JObject [(''year'', Fragment (SQLFragment ['''', '' > '', '''']
           [JSymbol self, Parameter (JNumber 1960)] None id))])
        \<lparr>text = '''', values = []\<rparr> None None
     = Inr \<lparr>text = ''(("year" > $1))'', values = [JNumber 1960]\<rparr>
   \<and> compileExpression nested_query
        (JObject [(''year'', Fragment (SQLFragment ['''', '' > '', '''']
           [JSymbol self, Parameter (JNumber 1960)] None id)),
          (''id'', JNumber 5), (''author'', ParentColumn ''id'')])
        \<lparr>text = '''', values = []\<rparr> (Some ''books'') None
     = Inr \<lparr>text = ''("author" = "authors"."id" AND "id" = $1 AND ("year" > $2))'',
            values = [JNumber 5, JNumber 1960]\<rparr>
   \<and> compileExpression empty_query (JObject []) \<lparr>text = ''WHERE '', values = []\<rparr> None None
     = Inr \<lparr>text = ''WHERE TRUE'', values = []\<rparr>\<close>
proof -
  let ?obj = "[(''title'', JString ''Dune'' :: (unit, unit) jsval), (''id'', JNumber 9)]"
  let ?r = "\<lparr>text = ''WHERE '', values = [JNull :: (unit, unit) jsval]\<rparr>"
  let ?year = "Fragment (SQLFragment ['''', '' > '', '''']
      [JSymbol self, Parameter (JNumber 1960)] None id) :: (unit, unit) jsval"
  let ?all = "[(''year'', ?year), (''id'', JNumber 5), (''author'', ParentColumn ''id'')]"
  have same: "map_of [(''id'', JNumber 5 :: (unit, unit) jsval), (''author'', ParentColumn ''id'')]
      = map_of [(''author'', ParentColumn ''id''), (''id'', JNumber 5)]"
    by (auto simp: fun_eq_iff)
  note two = Whereable_conjunction[where
      obj = "[(''id'', JNumber 5), (''author'', ParentColumn ''id'')]"
      and obj' = "[(''author'', ParentColumn ''id''), (''id'', JNumber 5)]"
      and this = empty_query and r = "\<lparr>text = '''', values = []\<rparr>"
      and pt = "Some ''books''" and cc = None and ?k1.0 = "''author''" and ?k2.0 = "''id''"
      and v = "JNumber 5" and col = "''id''" and t = "''books''"]
  from two same
  have order: "compileExpression empty_query
        (JObject [(''id'', JNumber 5), (''author'', ParentColumn ''id'')])
        \<lparr>text = '''', values = []\<rparr> (Some ''books'') None
      = compileExpression empty_query
        (JObject [(''author'', ParentColumn ''id''), (''id'', JNumber 5)])
        \<lparr>text = '''', values = []\<rparr> (Some ''books'') None"
    by blast
  have bound: "?obj \<noteq> [] \<and> (\<forall>k \<in> set (Object_keys ?obj).
      \<not> instanceof_SQLFragment (get ?obj k) \<and> \<not> instanceof_ParentColumn (get ?obj k))"
    by (simp add: Object_keys_def get_def)
  have keys: "sort (Object_keys ?obj) = [''id'', ''title'']" "length (Object_keys ?obj) = 2"
    by (simp_all add: Object_keys_def)
  have numbers: "[Suc (Suc 0) ..< Suc (Suc (Suc (Suc 0)))] = [2, 3]"
    by (simp add: upt_rec)
  from Whereable_conjunction[where obj = ?obj and this = empty_query and r = ?r
      and pt = None and cc = None] bound
  have "compileExpression empty_query (JObject ?obj) ?r None None =
      Inr \<lparr>text = text ?r @ ''('' @ join '' AND ''
                (map (\<lambda>(k, i). quoted k @ '' = $'' @ String_nat i)
                  (zip (sort (Object_keys ?obj))
                    [Suc (length (values ?r)) ..<
                     Suc (length (values ?r) + length (Object_keys ?obj))]))
              @ '')'',
           values = values ?r @ map (get ?obj) (sort (Object_keys ?obj))\<rparr>"
    by blast
  then have closed: \<open>compileExpression empty_query (JObject ?obj) ?r None None
      = Inr \<lparr>text = ''WHERE ("id" = $2 AND "title" = $3)'',
             values = [JNull, JNumber 9, JString ''Dune'']\<rparr>\<close>
    by (simp only: keys numbers) (simp add: get_def quoted_def String_nat_small)
  have inherited: "''author'' < ''id'' \<and> \<not> instanceof_SQLFragment (JNumber 5 :: (unit, unit) jsval)
      \<and> \<not> instanceof_ParentColumn (JNumber 5 :: (unit, unit) jsval)
      \<and> (parentTable empty_query = Some ''books''
        \<or> (parentTable empty_query = None \<or> parentTable empty_query = Some [])
          \<and> Some ''books'' = Some ''books'') \<and> ''books'' \<noteq> []"
    by (simp add: empty_query_def)
  from two inherited
  have "compileExpression empty_query
        (JObject [(''id'', JNumber 5), (''author'', ParentColumn ''id'')])
        \<lparr>text = '''', values = []\<rparr> (Some ''books'') None
      = Inr \<lparr>text = text \<lparr>text = '''', values = [] :: (unit, unit) jsval list\<rparr>
                @ ''('' @ [CHR 0x22] @ ''author'' @ [CHR 0x22] @ '' = ''
                @ [CHR 0x22] @ ''books'' @ [CHR 0x22] @ ''.'' @ [CHR 0x22] @ ''id'' @ [CHR 0x22]
                @ '' AND '' @ [CHR 0x22] @ ''id'' @ [CHR 0x22] @ '' = $''
                @ String_nat (Suc (length (values \<lparr>text = '''', values = [] :: (unit, unit) jsval list\<rparr>)))
                @ '')'',
             values = values \<lparr>text = '''', values = [] :: (unit, unit) jsval list\<rparr> @ [JNumber 5]\<rparr>"
    by blast
  then have mixed: \<open>compileExpression empty_query
        (JObject [(''id'', JNumber 5), (''author'', ParentColumn ''id'')])
        \<lparr>text = '''', values = []\<rparr> (Some ''books'') None
      = Inr \<lparr>text = ''("author" = "books"."id" AND "id" = $1)'', values = [JNumber 5]\<rparr>\<close>
    by (simp add: String_nat_small del: compileExpression.simps)
  have pinned: "(parentTable nested_query = Some ''authors''
        \<or> (parentTable nested_query = None \<or> parentTable nested_query = Some [])
          \<and> Some ''books'' = Some ''authors'') \<and> ''authors'' \<noteq> []"
    by (simp add: nested_query_def)
  from Whereable_conjunction[where this = nested_query and k = "''author''" and col = "''id''"
      and t = "''authors''" and r = "\<lparr>text = ''WHERE '', values = []\<rparr>"
      and pt = "Some ''books''" and cc = None] pinned
  have "compileExpression nested_query (JObject [(''author'', ParentColumn ''id'')])
        \<lparr>text = ''WHERE '', values = []\<rparr> (Some ''books'') None
      = Inr \<lparr>text = text \<lparr>text = ''WHERE '', values = [] :: (unit, unit) jsval list\<rparr>
                @ ''('' @ [CHR 0x22] @ ''author'' @ [CHR 0x22] @ '' = ''
                @ [CHR 0x22] @ ''authors'' @ [CHR 0x22] @ ''.'' @ [CHR 0x22] @ ''id'' @ [CHR 0x22]
                @ '')'',
             values = values \<lparr>text = ''WHERE '', values = [] :: (unit, unit) jsval list\<rparr>\<rparr>"
    by blast
  then have parent: \<open>compileExpression nested_query (JObject [(''author'', ParentColumn ''id'')])
        \<lparr>text = ''WHERE '', values = []\<rparr> (Some ''books'') None
      = Inr \<lparr>text = ''WHERE ("author" = "authors"."id")'', values = []\<rparr>\<close>
    by (simp del: compileExpression.simps)
  have inner: \<open>compile (SQLFragment ['''', '' > '', '''']
        [JSymbol self, Parameter (JNumber 1960 :: (unit, unit) jsval)] None id)
        \<lparr>text = ''(('', values = []\<rparr> None (Some ''year'')
      = Inr \<lparr>text = ''(("year" > $1'', values = [JNumber 1960]\<rparr>\<close>
    by (simp add: add_text_def own_table_def truthy_def template_def quoted_def String_nat_small)
  from Whereable_conjunction[where this = empty_query and k = "''year''"
      and f = "SQLFragment ['''', '' > '', ''''] [JSymbol self, Parameter (JNumber 1960)] None id"
      and r = "\<lparr>text = '''', values = []\<rparr>" and pt = None and cc = None]
  have "compileExpression empty_query (JObject [(''year'', ?year)])
        \<lparr>text = '''', values = []\<rparr> None None
      = (case compile (SQLFragment ['''', '' > '', '''']
                [JSymbol self, Parameter (JNumber 1960)] None id)
              \<lparr>text = text \<lparr>text = '''', values = [] :: (unit, unit) jsval list\<rparr> @ ''(('',
               values = values \<lparr>text = '''', values = [] :: (unit, unit) jsval list\<rparr>\<rparr>
              (if parentTable empty_query = None \<or> parentTable empty_query = Some [] then None
               else parentTable empty_query) (Some ''year'') of
           Inl err \<Rightarrow> Inl err
         | Inr b \<Rightarrow> Inr \<lparr>text = text b @ ''))'', values = values b\<rparr>)"
    by blast
  also have "(if parentTable empty_query = None \<or> parentTable empty_query = Some [] then None
      else parentTable empty_query) = None"
    by (simp add: empty_query_def)
  finally have fragment: \<open>compileExpression empty_query (JObject [(''year'', ?year)])
        \<lparr>text = '''', values = []\<rparr> None None
      = Inr \<lparr>text = ''(("year" > $1))'', values = [JNumber 1960]\<rparr>\<close>
    by (simp only: SQLResultType.select_convs append.simps inner sum.case)
  have spec: \<open>Mapping_spec nested_query ?all \<lparr>text = '''', values = []\<rparr> (Some ''books'')
      = Inr \<lparr>text = ''("author" = "authors"."id" AND "id" = $1 AND ("year" > $2))'',
             values = [JNumber 5, JNumber 1960]\<rparr>\<close>
    by (simp add: Mapping_spec_def conjunct_def Object_keys_def get_def add_text_def
        bind_parameter_def own_table_def truthy_def template_def quoted_def nested_query_def
        String_nat_small)
  from Whereable_conjunction[where this = nested_query and obj = ?all
      and r = "\<lparr>text = '''', values = []\<rparr>" and pt = "Some ''books''" and cc = None]
  have "compileExpression nested_query (JObject ?all) \<lparr>text = '''', values = []\<rparr>
        (Some ''books'') None
      = Mapping_spec nested_query ?all \<lparr>text = '''', values = []\<rparr> (Some ''books'')"
    by blast
  then have three: \<open>compileExpression nested_query (JObject ?all) \<lparr>text = '''', values = []\<rparr>
        (Some ''books'') None
      = Inr \<lparr>text = ''("author" = "authors"."id" AND "id" = $1 AND ("year" > $2))'',
             values = [JNumber 5, JNumber 1960]\<rparr>\<close>
    by (simp only: spec)
  from Whereable_conjunction[where this = empty_query
      and r = "\<lparr>text = ''WHERE '', values = []\<rparr>" and pt = None and cc = None]
  have "compileExpression empty_query (JObject []) \<lparr>text = ''WHERE '', values = []\<rparr> None None
      = Inr \<lparr>text = text \<lparr>text = ''WHERE '', values = [] :: (unit, unit) jsval list\<rparr>
                @ [CHR ''T'', CHR ''R'', CHR ''U'', CHR ''E''],
             values = values \<lparr>text = ''WHERE '', values = [] :: (unit, unit) jsval list\<rparr>\<rparr>"
    by blast
  then have true: \<open>compileExpression empty_query (JObject []) \<lparr>text = ''WHERE '', values = []\<rparr>
        None None
      = Inr \<lparr>text = ''WHERE TRUE'', values = []\<rparr>\<close>
    by (simp del: compileExpression.simps)
  show ?thesis
    by (intro conjI same order closed mixed parent fragment three true)
qed

subsection \<open>The loop over a \<^verbatim>\<open>ColumnValues\<close>\<close>













section \<open>Placeholders\<close>

subsection \<open>Reading placeholders\<close>

lemma digit_nth:
  "d < 10 \<Longrightarrow> is_digit (''0123456789'' ! d) \<and> of_char (''0123456789'' ! d) - 48 = d"
proof -
  assume "d < 10"
  then have "d \<in> {0, 1, 2, 3, 4, 5, 6, 7, 8, 9}" by auto
  then show ?thesis by (auto simp: is_digit_def)
qed

lemma String_nat_digits: "String_nat n \<noteq> [] \<and> (\<forall>c \<in> set (String_nat n). is_digit c)"
proof (induction n rule: String_nat.induct)
  case (1 n)
  show ?case
  proof (cases "n < 10")
    case True
    then show ?thesis using digit_nth[of n] by (simp add: String_nat.simps[of n])
  next
    case False
    then show ?thesis using 1 digit_nth[of "n mod 10"] by (simp add: String_nat.simps[of n])
  qed
qed

lemma Number_digits_String_nat: "Number_digits (String_nat n) = n"
proof (induction n rule: String_nat.induct)
  case (1 n)
  show ?case
  proof (cases "n < 10")
    case True
    then show ?thesis using digit_nth[of n] by (simp add: String_nat.simps[of n] Number_digits_def)
  next
    case False
    then have "Number_digits (String_nat (n div 10)) = n div 10" using 1 by simp
    then show ?thesis using False digit_nth[of "n mod 10"]
      by (simp add: String_nat.simps[of n] Number_digits_def)
  qed
qed

lemma takeWhile_digit_append:
  "no_leading_digit b \<Longrightarrow> takeWhile is_digit (cs @ b) = takeWhile is_digit cs"
  by (induction cs) (auto simp: no_leading_digit_def split: list.splits)

lemma dropWhile_digit_append:
  "no_leading_digit b \<Longrightarrow> dropWhile is_digit (cs @ b) = dropWhile is_digit cs @ b"
  by (induction cs) (auto simp: no_leading_digit_def split: list.splits)

lemma placeholders_append:
  "no_leading_digit b \<Longrightarrow> placeholders (a @ b) = placeholders a @ placeholders b"
  by (induction a rule: placeholders.induct)
     (simp_all add: takeWhile_digit_append dropWhile_digit_append)

lemma placeholders_placeholder: "placeholders (CHR ''$'' # String_nat n) = [n]"
proof -
  have tw: "takeWhile is_digit (String_nat n) = String_nat n"
    and dw: "dropWhile is_digit (String_nat n) = []"
    using String_nat_digits[of n] by simp_all
  show ?thesis using String_nat_digits[of n] by (simp add: tw dw Number_digits_String_nat)
qed

subsection \<open>Text that holds no placeholder\<close>

lemma no_leading_digit_append:
  "no_leading_digit a \<Longrightarrow> no_leading_digit b \<Longrightarrow> no_leading_digit (a @ b)"
  by (cases a) (simp_all add: no_leading_digit_def)

lemma plain_append: "plain a \<Longrightarrow> plain b \<Longrightarrow> no_leading_digit b \<Longrightarrow> plain (a @ b)"
  by (simp add: plain_def placeholders_append)

lemma plain_quoted: "plain k \<Longrightarrow> plain (quoted k)"
proof -
  assume "plain k"
  have "no_leading_digit [CHR 0x22]" by (simp add: no_leading_digit_def is_digit_def)
  then have "placeholders (k @ [CHR 0x22]) = placeholders k @ placeholders [CHR 0x22]"
    by (rule placeholders_append)
  then show ?thesis using \<open>plain k\<close> by (simp add: plain_def quoted_def)
qed

lemma no_leading_digit_quoted: "no_leading_digit (quoted k)"
  by (simp add: quoted_def no_leading_digit_def is_digit_def)

lemma plain_join_quoted: "\<forall>k \<in> set ks. plain k \<Longrightarrow> plain (join '', '' (map quoted ks))"
proof (induction ks rule: induct_list012)
  case 1
  show ?case by (simp add: plain_def)
next
  case (2 x)
  then show ?case by (simp add: plain_quoted)
next
  case (3 x y zs)
  have "plain ('', '' @ join '', '' (map quoted (y # zs)))"
    using 3 by (simp add: plain_def)
  moreover have "no_leading_digit ('', '' @ join '', '' (map quoted (y # zs)))"
    by (simp add: no_leading_digit_def is_digit_def)
  ultimately have "plain (quoted x @ ('', '' @ join '', '' (map quoted (y # zs))))"
    using 3 by (intro plain_append[where b = "'', '' @ join '', '' (map quoted (y # zs))"])
      (simp_all add: plain_quoted)
  then show ?case by simp
qed

lemma no_leading_digit_join_quoted: "no_leading_digit (join '', '' (map quoted ks))"
  by (induction ks rule: induct_list012) (simp_all add: no_leading_digit_def quoted_def is_digit_def)

lemma plain_opt_own_table:
  "plain_opt (parentTable this) \<Longrightarrow> plain_opt pt \<Longrightarrow> plain_opt (own_table this pt)"
  by (simp add: own_table_def)

lemma plain_template: "plain_opt s \<Longrightarrow> plain (template s)"
  by (cases s) (simp_all add: plain_opt_def template_def plain_def is_digit_def)

lemma sep_ok:
  "plain '', ''" "no_leading_digit '', ''" "plain '' AND ''" "no_leading_digit '' AND ''"
  "plain ''(''" "no_leading_digit ''(''" "plain '')''" "no_leading_digit '')''"
  "plain ''TRUE''" "no_leading_digit ''TRUE''" "plain ''DEFAULT''" "no_leading_digit ''DEFAULT''"
  "plain ''undefined''" "no_leading_digit ''undefined''"
  by (simp_all add: plain_def no_leading_digit_def is_digit_def)

lemma key_eq_ok: "plain k \<Longrightarrow> plain (quoted k @ '' = '')" "no_leading_digit (quoted k @ '' = '')"
proof -
  have "no_leading_digit '' = ''" "plain '' = ''"
    by (simp_all add: plain_def no_leading_digit_def is_digit_def)
  then show "plain k \<Longrightarrow> plain (quoted k @ '' = '')"
    by (intro plain_append[where b = "'' = ''"]) (simp_all add: plain_quoted)
  show "no_leading_digit (quoted k @ '' = '')"
    by (simp add: quoted_def no_leading_digit_def is_digit_def)
qed

lemma parent_ref_ok:
  "plain t \<Longrightarrow> plain c \<Longrightarrow> plain (quoted t @ CHR ''.'' # quoted c)"
  "no_leading_digit (quoted t @ CHR ''.'' # quoted c)"
proof -
  assume tc: "plain t" "plain c"
  have "no_leading_digit (quoted c)" by (rule no_leading_digit_quoted)
  then have "plain (''.'' @ quoted c)"
    using tc plain_quoted[of c] by (simp add: plain_def is_digit_def)
  moreover have "no_leading_digit (''.'' @ quoted c)"
    by (simp add: no_leading_digit_def is_digit_def)
  ultimately have "plain (quoted t @ (''.'' @ quoted c))"
    using tc by (intro plain_append[where b = "''.'' @ quoted c"]) (simp_all add: plain_quoted)
  then show "plain (quoted t @ CHR ''.'' # quoted c)" by simp
next
  show "no_leading_digit (quoted t @ CHR ''.'' # quoted c)"
    by (simp add: quoted_def no_leading_digit_def is_digit_def)
qed

subsection \<open>What a compilation appends\<close>

lemma appends_refl: "appends r r []"
  by (simp add: appends_def no_leading_digit_def)

lemma appends_trans:
  assumes "appends r r1 vs1" and "appends r1 r2 vs2"
  shows "appends r r2 (vs1 @ vs2)"
proof -
  from assms(1) obtain d1 where d1: "text r1 = text r @ d1" "no_leading_digit d1"
      "placeholders d1 = [Suc (length (values r)) ..< Suc (length (values r) + length vs1)]"
      "values r1 = values r @ vs1"
    by (auto simp: appends_def)
  from assms(2) obtain d2 where d2: "text r2 = text r1 @ d2" "no_leading_digit d2"
      "placeholders d2 = [Suc (length (values r1)) ..< Suc (length (values r1) + length vs2)]"
      "values r2 = values r1 @ vs2"
    by (auto simp: appends_def)
  have "placeholders (d1 @ d2) =
      [Suc (length (values r)) ..< Suc (length (values r) + length vs1)]
      @ [Suc (length (values r) + length vs1) ..< Suc (length (values r) + length vs1) + length vs2]"
    using d1 d2 by (simp add: placeholders_append)
  also have "\<dots> = [Suc (length (values r)) ..< Suc (length (values r) + length vs1) + length vs2]"
    by (rule upt_add_eq_append[symmetric]) simp
  finally have "placeholders (d1 @ d2) =
      [Suc (length (values r)) ..< Suc (length (values r) + length (vs1 @ vs2))]"
    by (simp add: add.assoc)
  moreover have "text r2 = text r @ (d1 @ d2)" using d1 d2 by simp
  moreover have "no_leading_digit (d1 @ d2)" using d1 d2 by (simp add: no_leading_digit_append)
  moreover have "values r2 = values r @ (vs1 @ vs2)" using d1 d2 by simp
  ultimately show ?thesis unfolding appends_def by blast
qed

lemma appends_add_text:
  "plain s \<Longrightarrow> no_leading_digit s \<Longrightarrow> appends r (add_text r s) []"
  by (simp add: appends_def add_text_def plain_def)

lemma appends_then_text:
  "appends r r' vs \<Longrightarrow> plain s \<Longrightarrow> no_leading_digit s \<Longrightarrow> appends r (add_text r' s) vs"
  using appends_trans[OF _ appends_add_text, of r r' vs s] by simp

lemma appends_after_text:
  "appends (add_text r s) r' vs \<Longrightarrow> plain s \<Longrightarrow> no_leading_digit s \<Longrightarrow> appends r r' vs"
  using appends_trans[OF appends_add_text, of s r r' vs] by simp

lemma appends_param:
  "appends r (add_text (r\<lparr>values := values r @ [v]\<rparr>)
      (CHR ''$'' # String_nat (Suc (length (values r))))) [v]"
  by (simp add: appends_def add_text_def placeholders_placeholder no_leading_digit_def is_digit_def
        del: placeholders.simps)

lemma sep_appends:
  "appends (if 0 < (i::nat) then add_text r '', '' else r) r' vs \<Longrightarrow> appends r r' vs"
  "appends (if 0 < i then add_text r '' AND '' else r) r' vs \<Longrightarrow> appends r r' vs"
  by (auto split: if_splits intro: appends_after_text simp: sep_ok)

lemma params_objects:
  "params (ColumnValues obj) = concat (map (value_params obj) (sort (Object_keys obj)))"
  "params (JObject obj) = concat (map (where_params obj) (sort (Object_keys obj)))"
  "params (JInstance c obj) = concat (map (where_params obj) (sort (Object_keys obj)))"
  by (simp_all add: value_params_def[abs_def] where_params_def[abs_def])

lemma compile_appends:
  "placeholder_free (Fragment this) \<longrightarrow> plain_opt pt \<longrightarrow> plain_opt cc \<longrightarrow>
     (\<forall>r'. compile this r pt cc = Inr r' \<longrightarrow> appends r r' (params (Fragment this)))"
  and "placeholder_free e \<longrightarrow> plain_opt (parentTable this) \<longrightarrow> plain_opt pt \<longrightarrow> plain_opt cc \<longrightarrow>
     (\<forall>r'. compileExpression this e r pt cc = Inr r' \<longrightarrow> appends r r' (params e))"
  and "(\<forall>l \<in> set ls. plain l \<and> no_leading_digit l) \<longrightarrow> (\<forall>e \<in> set es. placeholder_free e) \<longrightarrow>
     plain_opt (parentTable this) \<longrightarrow> plain_opt pt \<longrightarrow> plain_opt cc \<longrightarrow>
     (\<forall>r'. compile_for this ls es r pt cc = Inr r' \<longrightarrow>
        appends r r' (concat (map params (take (length ls) es))))"
  and "(\<forall>e \<in> set es. placeholder_free e) \<longrightarrow>
     plain_opt (parentTable this) \<longrightarrow> plain_opt pt \<longrightarrow> plain_opt cc \<longrightarrow>
     (\<forall>r'. array_for this es r pt cc = Inr r' \<longrightarrow> appends r r' (concat (map params es)))"
  and "(\<forall>k \<in> set ks. plain k \<and> (instanceof_SQLFragment (get v k) \<longrightarrow> placeholder_free (get v k))) \<longrightarrow>
     plain_opt (parentTable this) \<longrightarrow> plain_opt pt \<longrightarrow>
     (\<forall>r'. values_for this v i ks r pt = Inr r' \<longrightarrow>
        appends r r' (concat (map (value_params v) ks)))"
  and "(\<forall>k \<in> set ks. plain k \<and> (instanceof_SQLFragment (get v k) \<or> instanceof_ParentColumn (get v k)
          \<longrightarrow> placeholder_free (get v k))) \<longrightarrow>
     plain_opt (parentTable this) \<longrightarrow> plain_opt pt \<longrightarrow>
     (\<forall>r'. where_for this v i ks r pt = Inr r' \<longrightarrow>
        appends r r' (concat (map (where_params v) ks)))"
proof (induction this r pt cc and this e r pt cc and this ls es r pt cc and this es r pt cc
    and this v i ks r pt and this v i ks r pt
    rule: compile_compileExpression_compile_for_array_for_values_for_where_for.induct)
  case (1 this result pt cc)
  show ?case
  proof (intro impI allI)
    fix r'
    assume pf: "placeholder_free (Fragment this)" and pt: "plain_opt pt" and cc: "plain_opt cc"
      and c: "compile this result pt cc = Inr r'"
    let ?l0 = "case literals this of [] \<Rightarrow> ''undefined'' | l # x \<Rightarrow> l"
    have l0: "plain ?l0" "no_leading_digit ?l0"
      using pf by (auto simp: sep_ok split: list.splits)
    have "\<forall>l \<in> set (tl (literals this)). plain l \<and> no_leading_digit l"
      using pf by (cases "literals this") auto
    then have "appends (add_text result ?l0) r'
        (concat (map params (take (length (tl (literals this))) (expressions this))))"
      using 1 pf pt cc c by (simp add: plain_opt_own_table)
    then show "appends result r' (params (Fragment this))"
      using l0 by (auto intro: appends_after_text)
  qed
next
  case (2 this es result pt cc)
  show ?case by (simp add: appends_refl)
next
  case (3 this l ls es result pt cc)
  show ?case
  proof (intro impI allI)
    fix r'
    assume ls: "\<forall>l \<in> set (l # ls). plain l \<and> no_leading_digit l"
      and es: "\<forall>e \<in> set es. placeholder_free e"
      and ctx: "plain_opt (parentTable this)" "plain_opt pt" "plain_opt cc"
      and c: "compile_for this (l # ls) es result pt cc = Inr r'"
    show "appends result r' (concat (map params (take (length (l # ls)) es)))"
    proof (cases es)
      case Nil
      then show ?thesis using c by simp
    next
      case (Cons e es')
      from c Cons obtain b where b: "compileExpression this e result pt cc = Inr b"
        and r': "compile_for this ls es' (add_text b l) pt cc = Inr r'"
        by (auto split: sum.splits)
      have "appends result b (params e)" using 3(1) Cons es ctx b by simp
      then have "appends result (add_text b l) (params e)"
        using ls by (auto intro: appends_then_text)
      moreover have "appends (add_text b l) r' (concat (map params (take (length ls) es')))"
        using 3(2)[of b] Cons b ls es ctx r' by simp
      ultimately show ?thesis using Cons appends_trans by fastforce
    qed
  qed
next
  case (4 this expression result pt cc)
  then show ?case by (simp add: plain_opt_own_table)
next
  case (5 this expression result pt cc)
  show ?case
  proof (intro impI allI)
    fix r'
    assume pf: "placeholder_free (JString expression)"
      and c: "compileExpression this (JString expression) result pt cc = Inr r'"
    have "no_leading_digit expression" if "take 1 expression = [CHR 0x22]"
      using that by (cases expression) (simp_all add: no_leading_digit_def is_digit_def)
    then show "appends result r' (params (JString expression))"
      using pf c by (auto intro!: appends_add_text simp: plain_quoted no_leading_digit_quoted)
  qed
next
  case (6 this v result pt cc)
  show ?case by (auto intro!: appends_add_text)
next
  case (7 this expression result pt cc)
  then show ?case by (simp add: plain_opt_own_table)
next
  case (8 this result pt cc)
  show ?case by (simp add: appends_refl)
next
  case (9 this e es result pt cc)
  show ?case
  proof (intro impI allI)
    fix r'
    assume es: "\<forall>e \<in> set (e # es). placeholder_free e"
      and ctx: "plain_opt (parentTable this)" "plain_opt pt" "plain_opt cc"
      and c: "array_for this (e # es) result pt cc = Inr r'"
    from c obtain b where b: "compileExpression this e result pt cc = Inr b"
      and r': "array_for this es b pt cc = Inr r'"
      by (auto split: sum.splits)
    have "appends result b (params e)" using 9(1) es ctx b by simp
    moreover have "appends b r' (concat (map params es))" using 9(2)[of b] b es ctx r' by simp
    ultimately show "appends result r' (concat (map params (e # es)))"
      using appends_trans by fastforce
  qed
next
  case (10 this v result pt cc)
  show ?case using appends_param[of result v] by (simp add: Let_def)
next
  case (11 this s result pt cc)
  show ?case
    by (auto intro!: appends_add_text simp: sep_ok plain_quoted no_leading_digit_quoted plain_template)
next
  case (12 this v result pt cc)
  show ?case
    by (auto intro!: appends_add_text simp: parent_ref_ok plain_template plain_opt_own_table)
next
  case (13 this v result pt cc)
  show ?case
    by (auto intro!: appends_add_text simp: plain_join_quoted no_leading_digit_join_quoted Object_keys_def
        split: sum.splits)
next
  case (14 this v result pt cc)
  then show ?case by (simp add: plain_opt_own_table params_objects del: params.simps)
next
  case (15 this v i result pt)
  show ?case by (simp add: appends_refl)
next
  case (16 this v i columnName rest result pt)
  show ?case
  proof (intro impI allI)
    fix r'
    let ?x = "get v columnName"
    let ?xa = "if 0 < i then add_text result '', '' else result"
    assume ks: "\<forall>k \<in> set (columnName # rest). plain k \<and> (instanceof_SQLFragment (get v k) \<longrightarrow> placeholder_free (get v k))"
      and ctx: "plain_opt (parentTable this)" "plain_opt pt"
      and c: "values_for this v i (columnName # rest) result pt = Inr r'"
    have cc: "plain_opt (Some columnName)" using ks by (simp add: plain_opt_def)
    from c obtain b where b: "(if instanceof_SQLFragment ?x \<or> ?x = JSymbol Default
            then compileExpression this ?x ?xa pt (Some columnName)
            else compileExpression this (Parameter ?x) ?xa pt (Some columnName)) = Inr b"
      and r': "values_for this v (Suc i) rest b pt = Inr r'"
      by (auto simp: Let_def split: sum.splits)
    have "appends ?xa b (value_params v columnName)"
    proof (cases "instanceof_SQLFragment ?x \<or> ?x = JSymbol Default")
      case True
      then have "placeholder_free ?x" using ks by auto
      then have "appends ?xa b (params ?x)"
        using 16(1)[OF refl refl True] True b ctx cc by simp
      then show ?thesis using True by (auto simp: value_params_def)
    next
      case False
      then have "appends ?xa b (params (Parameter ?x))"
        using 16(2)[OF refl refl False] b ctx cc by simp
      then show ?thesis using False by (simp add: value_params_def)
    qed
    then have "appends result b (value_params v columnName)" by (rule sep_appends)
    moreover have "appends b r' (concat (map (value_params v) rest))"
      using 16(3)[OF refl refl b] ks ctx r' by simp
    ultimately show "appends result r' (concat (map (value_params v) (columnName # rest)))"
      using appends_trans by fastforce
  qed
next
  case (17 this v result pt cc)
  show ?case
  proof (intro impI allI)
    fix r'
    assume pf: "placeholder_free (JObject v)"
      and ctx: "plain_opt (parentTable this)" "plain_opt pt" "plain_opt cc"
      and c: "compileExpression this (JObject v) result pt cc = Inr r'"
    show "appends result r' (params (JObject v))"
    proof (cases "sort (Object_keys v) = []")
      case True
      then show ?thesis using c by (auto intro!: appends_add_text simp: sep_ok)
    next
      case False
      with c obtain b where b: "where_for this v 0 (sort (Object_keys v)) (add_text result ''('') (own_table this pt) = Inr b"
        and r': "r' = add_text b '')''"
        by (auto simp: Let_def split: sum.splits)
      have "appends (add_text result ''('') b (concat (map (where_params v) (sort (Object_keys v))))"
        using 17[OF refl False] pf ctx b by (simp add: plain_opt_own_table)
      then show ?thesis unfolding r' params_objects
        by (auto intro!: appends_then_text intro: appends_after_text simp: sep_ok)
    qed
  qed
next
  case (18 this c v result pt cc)
  show ?case
  proof (intro impI allI)
    fix r'
    assume pf: "placeholder_free (JInstance c v)"
      and ctx: "plain_opt (parentTable this)" "plain_opt pt" "plain_opt cc"
      and c: "compileExpression this (JInstance c v) result pt cc = Inr r'"
    show "appends result r' (params (JInstance c v))"
    proof (cases "sort (Object_keys v) = []")
      case True
      then show ?thesis using c by (auto intro!: appends_add_text simp: sep_ok)
    next
      case False
      with c obtain b where b: "where_for this v 0 (sort (Object_keys v)) (add_text result ''('') (own_table this pt) = Inr b"
        and r': "r' = add_text b '')''"
        by (auto simp: Let_def split: sum.splits)
      have "appends (add_text result ''('') b (concat (map (where_params v) (sort (Object_keys v))))"
        using 18[OF refl False] pf ctx b by (simp add: plain_opt_own_table)
      then show ?thesis unfolding r' params_objects
        by (auto intro!: appends_then_text intro: appends_after_text simp: sep_ok)
    qed
  qed
next
  case (19 this v i result pt)
  show ?case by (simp add: appends_refl)
next
  case (20 this v i columnName rest result pt)
  show ?case
  proof (intro impI allI)
    fix r'
    let ?x = "get v columnName"
    let ?xa = "if 0 < i then add_text result '' AND '' else result"
    assume ks: "\<forall>k \<in> set (columnName # rest). plain k \<and> (instanceof_SQLFragment (get v k) \<or> instanceof_ParentColumn (get v k) \<longrightarrow> placeholder_free (get v k))"
      and ctx: "plain_opt (parentTable this)" "plain_opt pt"
      and c: "where_for this v i (columnName # rest) result pt = Inr r'"
    have cc: "plain_opt (Some columnName)" and k: "plain columnName"
      using ks by (simp_all add: plain_opt_def)
    let ?step = "if instanceof_SQLFragment ?x
            then case compileExpression this ?x (add_text ?xa ''('') pt (Some columnName) of
                 Inl x \<Rightarrow> Inl x | Inr r \<Rightarrow> Inr (add_text r '')'')
            else compileExpression this (if instanceof_ParentColumn ?x then ?x else Parameter ?x)
                  (add_text ?xa (quoted columnName @ '' = '')) pt (Some columnName)"
    from c obtain b where b: "?step = Inr b"
      and r': "where_for this v (Suc i) rest b pt = Inr r'"
      by (auto simp: Let_def split: sum.splits)
    have "appends ?xa b (where_params v columnName)"
    proof (cases "instanceof_SQLFragment ?x")
      case True
      then have pfx: "placeholder_free ?x" using ks by auto
      from b True obtain b' where b': "compileExpression this ?x (add_text ?xa ''('') pt (Some columnName) = Inr b'"
        and bb: "b = add_text b' '')''"
        by (auto split: sum.splits)
      have "appends (add_text ?xa ''('') b' (params ?x)"
        using 20(1)[OF refl refl True] pfx b' ctx cc by simp
      then show ?thesis using True unfolding bb
        by (auto simp: where_params_def sep_ok intro!: appends_then_text intro: appends_after_text)
    next
      case False
      let ?arg = "if instanceof_ParentColumn ?x then ?x else Parameter ?x"
      have "placeholder_free ?arg" using ks by auto
      then have "appends (add_text ?xa (quoted columnName @ '' = '')) b (params ?arg)"
        using 20(2)[OF refl refl False] False b ctx cc by simp
      then have "appends ?xa b (params ?arg)"
        using k by (auto intro: appends_after_text simp: key_eq_ok)
      moreover have "params ?arg = where_params v columnName"
        using False by (auto simp: where_params_def instanceof_ParentColumn_def)
      ultimately show ?thesis by simp
    qed
    then have "appends result b (where_params v columnName)" by (rule sep_appends)
    moreover have "appends b r' (concat (map (where_params v) rest))"
      using 20(3)[OF refl refl b] ks ctx r' by simp
    ultimately show "appends result r' (concat (map (where_params v) (columnName # rest)))"
      using appends_trans by fastforce
  qed
next
  case (21 this result pt cc)
  show ?case by simp
next
  case (22 this result pt cc)
  show ?case by simp
next
  case (23 this b result pt cc)
  show ?case by simp
next
  case (24 this n result pt cc)
  show ?case by simp
next
  case (25 this s result pt cc)
  show ?case by simp
next
  case (26 this n result pt cc)
  show ?case by simp
next
  case (27 this s result pt cc)
  show ?case by simp
qed

text \<open>
  C1, as amended. Take a fragment whose copied text holds no placeholder of its own
  (\<open>placeholder_free\<close>: no literal, raw string, identifier, column name, key or table name
  has a dollar sign followed by a digit, and no literal or raw string begins with a
  digit), compiled from a fresh accumulator under a context of which the same holds. When
  the compilation succeeds, the values list is the list of the values that the expansion of
  the fragment binds, in order, and the placeholders of the text are \<^verbatim>\<open>$1\<close> to \<^verbatim>\<open>$N\<close>,
  each once and in increasing order, \<open>N\<close> being the number of those values: so the n-th
  placeholder is \<^verbatim>\<open>$n\<close> and binds the n-th value. Markers, parent column references, raw
  text and identifiers add no value (\<open>params\<close>) and so no placeholder.
\<close>

theorem compile_numbers_placeholders:
  assumes "placeholder_free (Fragment this)" and "plain_opt pt" and "plain_opt cc"
    and "compile this \<lparr>text = '''', values = []\<rparr> pt cc = Inr r"
  shows "values r = params (Fragment this)
     \<and> placeholders (text r) = [1 ..< Suc (length (params (Fragment this)))]"
  using compile_appends(1)[of this pt cc "\<lparr>text = '''', values = []\<rparr>"] assms
  by (auto simp: appends_def simp del: params.simps placeholder_free.simps)

theorem compile_numbers_placeholders_witness:
  \<open>placeholder_free (Fragment insert_query)
   \<and> compile insert_query \<lparr>text = '''', values = []\<rparr> None None
     = Inr \<lparr>text = ''INSERT INTO "t" ("a", "b") VALUES ($1, $2) RETURNING "a" + $3'',
            values = [JNumber 1, JNumber 2, JNumber 7]\<rparr>
   \<and> params (Fragment insert_query) = [JNumber 1, JNumber 2, JNumber 7]
   \<and> placeholders ''INSERT INTO "t" ("a", "b") VALUES ($1, $2) RETURNING "a" + $3''
     = [1 ..< Suc (length (params (Fragment insert_query)))]\<close>
proof -
  have free: "placeholder_free (Fragment insert_query)"
    by code_simp
  have no_context: "plain_opt None"
    by (simp add: plain_opt_def)
  have compiled: \<open>compile insert_query \<lparr>text = '''', values = []\<rparr> None None
     = Inr \<lparr>text = ''INSERT INTO "t" ("a", "b") VALUES ($1, $2) RETURNING "a" + $3'',
            values = [JNumber 1, JNumber 2, JNumber 7]\<rparr>\<close>
    by code_simp
  from compile_numbers_placeholders[OF free no_context no_context compiled] free compiled
  show ?thesis by simp
qed

text \<open>
  The sentence of the specification fails where copied text holds a placeholder or lengthens one:
  the raw string \<^verbatim>\<open>$1\<close> binds no value and the compiled text has the placeholder
  \<^verbatim>\<open>$1\<close>; the literal \<^verbatim>\<open>0\<close> behind the one parameter makes its placeholder \<^verbatim>\<open>$10\<close>.
\<close>

theorem copied_text_counterexample:
  "compile raw_query \<lparr>text = '''', values = []\<rparr> None None
     = Inr \<lparr>text = ''SELECT $1'', values = []\<rparr>
   \<and> params (Fragment raw_query) = []
   \<and> placeholders ''SELECT $1'' = [1]
   \<and> compile digit_query \<lparr>text = '''', values = []\<rparr> None None
     = Inr \<lparr>text = ''LIMIT $10'', values = [JNumber 7]\<rparr>
   \<and> params (Fragment digit_query) = [JNumber 7]
   \<and> placeholders ''LIMIT $10'' = [10]"
  by code_simp

section \<open>What a compilation reads of the accumulator\<close>

lemma same_effect_Inl: "same_effect r (Inl err) r2 (Inl err)"
  by (simp add: same_effect_def)

lemma same_effect_Inr: "same_effect r (Inr r) r2 (Inr r2)"
  by (simp add: same_effect_def)

lemma same_effect_add_text: "same_effect r (Inr (add_text r s)) r2 (Inr (add_text r2 s))"
  by (simp add: same_effect_def add_text_def)

lemma same_effect_after_text:
  "same_effect (add_text r s) o1 (add_text r2 s) o2 \<Longrightarrow> same_effect r o1 r2 o2"
  by (auto simp: same_effect_def add_text_def split: sum.splits)

lemma same_effect_after_sep:
  "same_effect (if c then add_text r s else r) o1 (if c then add_text r2 s else r2) o2
     \<Longrightarrow> same_effect r o1 r2 o2"
  by (cases c) (auto intro: same_effect_after_text)

lemma same_effect_bind:
  assumes "same_effect r (F r) r2 (F r2)"
    and "length (values r2) = length (values r)"
    and "\<And>b b2. F r = Inr b \<Longrightarrow> length (values b2) = length (values b)
            \<Longrightarrow> same_effect b (G b) b2 (G b2)"
  shows "same_effect r (case F r of Inl err \<Rightarrow> Inl err | Inr b \<Rightarrow> G b)
           r2 (case F r2 of Inl err \<Rightarrow> Inl err | Inr b \<Rightarrow> G b)"
proof (cases "F r")
  case (Inl err)
  then show ?thesis using assms(1) by (simp add: same_effect_def)
next
  case (Inr b)
  with assms(1) obtain d vs b2 where b: "text b = text r @ d" "values b = values r @ vs"
    and F2: "F r2 = Inr b2" and b2: "text b2 = text r2 @ d" "values b2 = values r2 @ vs"
    by (auto simp: same_effect_def)
  have "same_effect b (G b) b2 (G b2)"
    using assms(2) by (intro assms(3)[OF Inr]) (simp add: b b2)
  then show ?thesis using Inr F2 b b2
    by (auto simp: same_effect_def split: sum.splits)
qed

lemma same_effect_then_text:
  assumes "same_effect r (F r) r2 (F r2)" and "length (values r2) = length (values r)"
  shows "same_effect r (case F r of Inl err \<Rightarrow> Inl err | Inr b \<Rightarrow> Inr (add_text b s))
           r2 (case F r2 of Inl err \<Rightarrow> Inl err | Inr b \<Rightarrow> Inr (add_text b s))"
  using assms by (rule same_effect_bind) (rule same_effect_add_text)

lemma compile_same_effect:
  "\<forall>r2. length (values r2) = length (values r) \<longrightarrow>
     same_effect r (compile this r pt cc) r2 (compile this r2 pt cc)"
  and "\<forall>r2. length (values r2) = length (values r) \<longrightarrow>
     same_effect r (compileExpression this e r pt cc) r2 (compileExpression this e r2 pt cc)"
  and "\<forall>r2. length (values r2) = length (values r) \<longrightarrow>
     same_effect r (compile_for this ls es r pt cc) r2 (compile_for this ls es r2 pt cc)"
  and "\<forall>r2. length (values r2) = length (values r) \<longrightarrow>
     same_effect r (array_for this es r pt cc) r2 (array_for this es r2 pt cc)"
  and "\<forall>r2. length (values r2) = length (values r) \<longrightarrow>
     same_effect r (values_for this v i ks r pt) r2 (values_for this v i ks r2 pt)"
  and "\<forall>r2. length (values r2) = length (values r) \<longrightarrow>
     same_effect r (where_for this v i ks r pt) r2 (where_for this v i ks r2 pt)"
proof (induction this r pt cc and this e r pt cc and this ls es r pt cc and this es r pt cc
    and this v i ks r pt and this v i ks r pt
    rule: compile_compileExpression_compile_for_array_for_values_for_where_for.induct)
  case (1 this result pt cc)
  show ?case
  proof (intro allI impI)
    fix r2 :: "('a, 'b) SQLResultType"
    assume len: "length (values r2) = length (values result)"
    let ?l0 = "case literals this of [] \<Rightarrow> ''undefined'' | l # x \<Rightarrow> l"
    have "same_effect (add_text result ?l0)
        (compile_for this (tl (literals this)) (expressions this) (add_text result ?l0) (own_table this pt) cc)
        (add_text r2 ?l0)
        (compile_for this (tl (literals this)) (expressions this) (add_text r2 ?l0) (own_table this pt) cc)"
      using 1[rule_format, of "add_text r2 ?l0"] len by simp
    then show "same_effect result (compile this result pt cc) r2 (compile this r2 pt cc)"
      by (auto intro: same_effect_after_text)
  qed
next
  case (2 this es result pt cc)
  show ?case by (simp add: same_effect_Inr)
next
  case (3 this l ls es result pt cc)
  show ?case
  proof (intro allI impI)
    fix r2 :: "('a, 'b) SQLResultType"
    assume len: "length (values r2) = length (values result)"
    let ?e = "case es of [] \<Rightarrow> JUndefined | e # x \<Rightarrow> e"
    have "same_effect result
        (case compileExpression this ?e result pt cc of Inl err \<Rightarrow> Inl err
         | Inr b \<Rightarrow> compile_for this ls (tl es) (add_text b l) pt cc)
        r2 (case compileExpression this ?e r2 pt cc of Inl err \<Rightarrow> Inl err
         | Inr b \<Rightarrow> compile_for this ls (tl es) (add_text b l) pt cc)"
    proof (rule same_effect_bind[where F = "\<lambda>r. compileExpression this ?e r pt cc"], goal_cases)
      case 1
      show ?case using 3(1) len by simp
    next
      case 2
      show ?case by (rule len)
    next
      case (3 b b2)
      have "same_effect (add_text b l) (compile_for this ls (tl es) (add_text b l) pt cc)
          (add_text b2 l) (compile_for this ls (tl es) (add_text b2 l) pt cc)"
        using "3.IH"(2)[OF 3(1)] 3(2) by simp
      then show ?case by (rule same_effect_after_text)
    qed
    then show "same_effect result (compile_for this (l # ls) es result pt cc)
        r2 (compile_for this (l # ls) es r2 pt cc)"
      by simp
  qed
next
  case (4 this expression result pt cc)
  then show ?case by simp
next
  case (5 this expression result pt cc)
  show ?case by (simp add: same_effect_add_text)
next
  case (6 this v result pt cc)
  show ?case by (simp add: same_effect_add_text)
next
  case (7 this expression result pt cc)
  then show ?case by simp
next
  case (8 this result pt cc)
  show ?case by (simp add: same_effect_Inr)
next
  case (9 this e es result pt cc)
  show ?case
  proof (intro allI impI)
    fix r2 :: "('a, 'b) SQLResultType"
    assume len: "length (values r2) = length (values result)"
    have "same_effect result
        (case compileExpression this e result pt cc of Inl err \<Rightarrow> Inl err
         | Inr b \<Rightarrow> array_for this es b pt cc)
        r2 (case compileExpression this e r2 pt cc of Inl err \<Rightarrow> Inl err
         | Inr b \<Rightarrow> array_for this es b pt cc)"
    proof (rule same_effect_bind[where F = "\<lambda>r. compileExpression this e r pt cc"], goal_cases)
      case 1
      show ?case using 9(1) len by simp
    next
      case 2
      show ?case by (rule len)
    next
      case (3 b b2)
      show ?case using "9.IH"(2)[OF 3(1)] 3(2) by simp
    qed
    then show "same_effect result (array_for this (e # es) result pt cc)
        r2 (array_for this (e # es) r2 pt cc)"
      by simp
  qed
next
  case (10 this v result pt cc)
  show ?case
  proof (intro allI impI)
    fix r2 :: "('a, 'b) SQLResultType"
    assume len: "length (values r2) = length (values result)"
    show "same_effect result (compileExpression this (Parameter v) result pt cc)
        r2 (compileExpression this (Parameter v) r2 pt cc)"
      using len by (simp add: same_effect_def Let_def add_text_def)
  qed
next
  case (11 this s result pt cc)
  show ?case by (simp add: same_effect_add_text same_effect_Inl)
next
  case (12 this v result pt cc)
  show ?case by (simp add: same_effect_add_text same_effect_Inl)
next
  case (13 this v result pt cc)
  show ?case by (simp add: same_effect_add_text Let_def)
next
  case (14 this v result pt cc)
  then show ?case by simp
next
  case (15 this v i result pt)
  show ?case by (simp add: same_effect_Inr)
next
  case (16 this v i columnName rest result pt)
  show ?case
  proof (intro allI impI)
    fix r2 :: "('a, 'b) SQLResultType"
    assume len: "length (values r2) = length (values result)"
    let ?x = "get v columnName"
    let ?xa = "\<lambda>r. if 0 < i then add_text r '', '' else r"
    let ?F = "\<lambda>r. if instanceof_SQLFragment ?x \<or> ?x = JSymbol Default
            then compileExpression this ?x r pt (Some columnName)
            else compileExpression this (Parameter ?x) r pt (Some columnName)"
    have len': "length (values (?xa r2)) = length (values (?xa result))" using len by simp
    have F: "same_effect (?xa result) (?F (?xa result)) (?xa r2) (?F (?xa r2))"
    proof (cases "instanceof_SQLFragment ?x \<or> ?x = JSymbol Default")
      case True
      show ?thesis using 16(1)[OF refl refl True] len' True by simp
    next
      case False
      show ?thesis using 16(2)[OF refl refl False] len' False by simp
    qed
    have "same_effect (?xa result)
        (case ?F (?xa result) of Inl err \<Rightarrow> Inl err | Inr b \<Rightarrow> values_for this v (Suc i) rest b pt)
        (?xa r2)
        (case ?F (?xa r2) of Inl err \<Rightarrow> Inl err | Inr b \<Rightarrow> values_for this v (Suc i) rest b pt)"
    proof (rule same_effect_bind[where F = ?F], goal_cases)
      case 1
      show ?case by (rule F)
    next
      case 2
      show ?case by (rule len')
    next
      case (3 b b2)
      show ?case using "16.IH"(3)[OF refl refl 3(1)] 3(2) by simp
    qed
    then have "same_effect result
        (case ?F (?xa result) of Inl err \<Rightarrow> Inl err | Inr b \<Rightarrow> values_for this v (Suc i) rest b pt)
        r2
        (case ?F (?xa r2) of Inl err \<Rightarrow> Inl err | Inr b \<Rightarrow> values_for this v (Suc i) rest b pt)"
      by (rule same_effect_after_sep)
    then show "same_effect result (values_for this v i (columnName # rest) result pt)
        r2 (values_for this v i (columnName # rest) r2 pt)"
      by (simp add: Let_def)
  qed
next
  case (17 this v result pt cc)
  show ?case
  proof (intro allI impI)
    fix r2 :: "('a, 'b) SQLResultType"
    assume len: "length (values r2) = length (values result)"
    show "same_effect result (compileExpression this (JObject v) result pt cc)
        r2 (compileExpression this (JObject v) r2 pt cc)"
    proof (cases "sort (Object_keys v) = []")
      case True
      then show ?thesis by (simp add: same_effect_add_text)
    next
      case False
      let ?F = "\<lambda>r. where_for this v 0 (sort (Object_keys v)) r (own_table this pt)"
      have "same_effect (add_text result ''('') (?F (add_text result ''(''))
          (add_text r2 ''('') (?F (add_text r2 ''(''))"
        using 17[OF refl False] len by simp
      then have "same_effect (add_text result ''('')
          (case ?F (add_text result ''('') of Inl err \<Rightarrow> Inl err | Inr b \<Rightarrow> Inr (add_text b '')''))
          (add_text r2 ''('')
          (case ?F (add_text r2 ''('') of Inl err \<Rightarrow> Inl err | Inr b \<Rightarrow> Inr (add_text b '')''))"
        using len by (intro same_effect_then_text[where F = ?F]) simp_all
      then show ?thesis using False by (auto simp: Let_def intro: same_effect_after_text)
    qed
  qed
next
  case (18 this c v result pt cc)
  show ?case
  proof (intro allI impI)
    fix r2 :: "('a, 'b) SQLResultType"
    assume len: "length (values r2) = length (values result)"
    show "same_effect result (compileExpression this (JInstance c v) result pt cc)
        r2 (compileExpression this (JInstance c v) r2 pt cc)"
    proof (cases "sort (Object_keys v) = []")
      case True
      then show ?thesis by (simp add: same_effect_add_text)
    next
      case False
      let ?F = "\<lambda>r. where_for this v 0 (sort (Object_keys v)) r (own_table this pt)"
      have "same_effect (add_text result ''('') (?F (add_text result ''(''))
          (add_text r2 ''('') (?F (add_text r2 ''(''))"
        using 18[OF refl False] len by simp
      then have "same_effect (add_text result ''('')
          (case ?F (add_text result ''('') of Inl err \<Rightarrow> Inl err | Inr b \<Rightarrow> Inr (add_text b '')''))
          (add_text r2 ''('')
          (case ?F (add_text r2 ''('') of Inl err \<Rightarrow> Inl err | Inr b \<Rightarrow> Inr (add_text b '')''))"
        using len by (intro same_effect_then_text[where F = ?F]) simp_all
      then show ?thesis using False by (auto simp: Let_def intro: same_effect_after_text)
    qed
  qed
next
  case (19 this v i result pt)
  show ?case by (simp add: same_effect_Inr)
next
  case (20 this v i columnName rest result pt)
  show ?case
  proof (intro allI impI)
    fix r2 :: "('a, 'b) SQLResultType"
    assume len: "length (values r2) = length (values result)"
    let ?x = "get v columnName"
    let ?xa = "\<lambda>r. if 0 < i then add_text r '' AND '' else r"
    let ?F = "\<lambda>r. if instanceof_SQLFragment ?x
            then case compileExpression this ?x (add_text r ''('') pt (Some columnName) of
                 Inl x \<Rightarrow> Inl x | Inr r \<Rightarrow> Inr (add_text r '')'')
            else compileExpression this (if instanceof_ParentColumn ?x then ?x else Parameter ?x)
                  (add_text r (quoted columnName @ '' = '')) pt (Some columnName)"
    have len': "length (values (?xa r2)) = length (values (?xa result))" using len by simp
    have F: "same_effect (?xa result) (?F (?xa result)) (?xa r2) (?F (?xa r2))"
    proof (cases "instanceof_SQLFragment ?x")
      case True
      let ?G = "\<lambda>r. compileExpression this ?x r pt (Some columnName)"
      have "same_effect (add_text (?xa result) ''('') (?G (add_text (?xa result) ''(''))
          (add_text (?xa r2) ''('') (?G (add_text (?xa r2) ''(''))"
        using 20(1)[OF refl refl True] len' by simp
      then have "same_effect (add_text (?xa result) ''('')
          (case ?G (add_text (?xa result) ''('') of Inl err \<Rightarrow> Inl err | Inr b \<Rightarrow> Inr (add_text b '')''))
          (add_text (?xa r2) ''('')
          (case ?G (add_text (?xa r2) ''('') of Inl err \<Rightarrow> Inl err | Inr b \<Rightarrow> Inr (add_text b '')''))"
        using len' by (intro same_effect_then_text[where F = ?G]) simp_all
      then show ?thesis using True by (auto intro: same_effect_after_text)
    next
      case False
      have "same_effect (add_text (?xa result) (quoted columnName @ '' = '')) (?F (?xa result))
          (add_text (?xa r2) (quoted columnName @ '' = '')) (?F (?xa r2))"
        using 20(2)[OF refl refl False] len' False by simp
      then show ?thesis by (rule same_effect_after_text)
    qed
    have "same_effect (?xa result)
        (case ?F (?xa result) of Inl err \<Rightarrow> Inl err | Inr b \<Rightarrow> where_for this v (Suc i) rest b pt)
        (?xa r2)
        (case ?F (?xa r2) of Inl err \<Rightarrow> Inl err | Inr b \<Rightarrow> where_for this v (Suc i) rest b pt)"
    proof (rule same_effect_bind[where F = ?F], goal_cases)
      case 1
      show ?case by (rule F)
    next
      case 2
      show ?case by (rule len')
    next
      case (3 b b2)
      show ?case using "20.IH"(3)[OF refl refl 3(1)] 3(2) by simp
    qed
    then have "same_effect result
        (case ?F (?xa result) of Inl err \<Rightarrow> Inl err | Inr b \<Rightarrow> where_for this v (Suc i) rest b pt)
        r2
        (case ?F (?xa r2) of Inl err \<Rightarrow> Inl err | Inr b \<Rightarrow> where_for this v (Suc i) rest b pt)"
      by (rule same_effect_after_sep)
    then show "same_effect result (where_for this v i (columnName # rest) result pt)
        r2 (where_for this v i (columnName # rest) r2 pt)"
      by (simp add: Let_def)
  qed
next
  case (21 this result pt cc)
  show ?case by (simp add: same_effect_Inl)
next
  case (22 this result pt cc)
  show ?case by (simp add: same_effect_Inl)
next
  case (23 this b result pt cc)
  show ?case by (simp add: same_effect_Inl)
next
  case (24 this n result pt cc)
  show ?case by (simp add: same_effect_Inl)
next
  case (25 this s result pt cc)
  show ?case by (simp add: same_effect_Inl)
next
  case (26 this n result pt cc)
  show ?case by (simp add: same_effect_Inl)
next
  case (27 this s result pt cc)
  show ?case by (simp add: same_effect_Inl)
qed

text \<open>
  Of the accumulator a compilation reads the number of values only: two compilations of one
  fragment under one context, from accumulators that hold equally many values, fail with
  the same error or succeed both, and then append the same text and the same values,
  element by element.
\<close>

lemma compile_reads_number_of_values:
  assumes "length (values r1) = length (values r2)"
  shows "(\<forall>err. compile this r1 pt cc = Inl err \<longleftrightarrow> compile this r2 pt cc = Inl err)
     \<and> (\<forall>r1' r2'. compile this r1 pt cc = Inr r1' \<and> compile this r2 pt cc = Inr r2' \<longrightarrow>
          (\<exists>d vs. text r1' = text r1 @ d \<and> text r2' = text r2 @ d
             \<and> values r1' = values r1 @ vs \<and> values r2' = values r2 @ vs))"
proof -
  have a: "same_effect r1 (compile this r1 pt cc) r2 (compile this r2 pt cc)"
    using compile_same_effect(1)[of r1 this pt cc] assms by simp
  have b: "same_effect r2 (compile this r2 pt cc) r1 (compile this r1 pt cc)"
    using compile_same_effect(1)[of r2 this pt cc] assms by simp
  show ?thesis using a b
    by (cases "compile this r1 pt cc"; cases "compile this r2 pt cc") (auto simp: same_effect_def)
qed

lemma compile_reads_number_of_values_example:
  \<open>length (values \<lparr>text = '''', values = [] :: (unit, unit) jsval list\<rparr>)
     = length (values \<lparr>text = ''EXPLAIN '', values = [] :: (unit, unit) jsval list\<rparr>)
   \<and> compile insert_query \<lparr>text = '''', values = []\<rparr> None None
     = Inr \<lparr>text = ''INSERT INTO "t" ("a", "b") VALUES ($1, $2) RETURNING "a" + $3'',
            values = [JNumber 1, JNumber 2, JNumber 7]\<rparr>
   \<and> compile insert_query \<lparr>text = ''EXPLAIN '', values = []\<rparr> None None
     = Inr \<lparr>text = ''EXPLAIN INSERT INTO "t" ("a", "b") VALUES ($1, $2) RETURNING "a" + $3'',
            values = [JNumber 1, JNumber 2, JNumber 7]\<rparr>
   \<and> (\<exists>d vs. ''INSERT INTO "t" ("a", "b") VALUES ($1, $2) RETURNING "a" + $3'' = '''' @ d
         \<and> ''EXPLAIN INSERT INTO "t" ("a", "b") VALUES ($1, $2) RETURNING "a" + $3''
             = ''EXPLAIN '' @ d
         \<and> [JNumber 1, JNumber 2, JNumber 7 :: (unit, unit) jsval] = [] @ vs
         \<and> [JNumber 1, JNumber 2, JNumber 7 :: (unit, unit) jsval] = [] @ vs)\<close>
proof -
  have len: "length (values \<lparr>text = '''', values = [] :: (unit, unit) jsval list\<rparr>)
      = length (values \<lparr>text = ''EXPLAIN '', values = [] :: (unit, unit) jsval list\<rparr>)"
    by simp
  have first: \<open>compile insert_query \<lparr>text = '''', values = []\<rparr> None None
     = Inr \<lparr>text = ''INSERT INTO "t" ("a", "b") VALUES ($1, $2) RETURNING "a" + $3'',
            values = [JNumber 1, JNumber 2, JNumber 7]\<rparr>\<close>
    by code_simp
  have second: \<open>compile insert_query \<lparr>text = ''EXPLAIN '', values = []\<rparr> None None
     = Inr \<lparr>text = ''EXPLAIN INSERT INTO "t" ("a", "b") VALUES ($1, $2) RETURNING "a" + $3'',
            values = [JNumber 1, JNumber 2, JNumber 7]\<rparr>\<close>
    by code_simp
  from compile_reads_number_of_values[OF len, of insert_query None None] first second
  have \<open>\<exists>d vs. text \<lparr>text = ''INSERT INTO "t" ("a", "b") VALUES ($1, $2) RETURNING "a" + $3'',
            values = [JNumber 1, JNumber 2, JNumber 7 :: (unit, unit) jsval]\<rparr>
          = text \<lparr>text = '''', values = [] :: (unit, unit) jsval list\<rparr> @ d
      \<and> text \<lparr>text = ''EXPLAIN INSERT INTO "t" ("a", "b") VALUES ($1, $2) RETURNING "a" + $3'',
            values = [JNumber 1, JNumber 2, JNumber 7 :: (unit, unit) jsval]\<rparr>
          = text \<lparr>text = ''EXPLAIN '', values = [] :: (unit, unit) jsval list\<rparr> @ d
      \<and> values \<lparr>text = ''INSERT INTO "t" ("a", "b") VALUES ($1, $2) RETURNING "a" + $3'',
            values = [JNumber 1, JNumber 2, JNumber 7 :: (unit, unit) jsval]\<rparr>
          = values \<lparr>text = '''', values = [] :: (unit, unit) jsval list\<rparr> @ vs
      \<and> values \<lparr>text = ''EXPLAIN INSERT INTO "t" ("a", "b") VALUES ($1, $2) RETURNING "a" + $3'',
            values = [JNumber 1, JNumber 2, JNumber 7 :: (unit, unit) jsval]\<rparr>
          = values \<lparr>text = ''EXPLAIN '', values = [] :: (unit, unit) jsval list\<rparr> @ vs\<close>
    by blast
  then have \<open>\<exists>d vs. ''INSERT INTO "t" ("a", "b") VALUES ($1, $2) RETURNING "a" + $3'' = '''' @ d
         \<and> ''EXPLAIN INSERT INTO "t" ("a", "b") VALUES ($1, $2) RETURNING "a" + $3''
             = ''EXPLAIN '' @ d
         \<and> [JNumber 1, JNumber 2, JNumber 7 :: (unit, unit) jsval] = [] @ vs
         \<and> [JNumber 1, JNumber 2, JNumber 7 :: (unit, unit) jsval] = [] @ vs\<close>
    by (simp only: SQLResultType.simps)
  with len first second show ?thesis by blast
qed

end
